theory Spec2Isabelle
  imports Main "HOL-Library.Word" "HOL-Library.Sublist"
begin

section \<open>The beanstalkd client of the rawx service (rawx/beanstalk.go)\<close>

text \<open>
  Go strings and byte slices are byte sequences: both are \<^typ>\<open>string\<close> here, and a nil
  slice is the empty list. The line terminator of the protocol is the two bytes CR LF.
\<close>

abbreviation CRLF :: string where
  "CRLF \<equiv> [CHR 0x0D, CHR 0x0A]"

subsection \<open>Errors\<close>

text \<open>
  The eleven error values of the package, the error built by \<open>fmt.Errorf\<close> in
  \<open>parseBeanstalkError\<close>, the error built in \<open>sendAll\<close> when there is no connection,
  and the errors of the libraries the client calls: a transport error (with the flag that
  says whether it is a \<open>net.Error\<close> whose \<open>Temporary()\<close> holds), the two end-of-stream
  errors of package \<open>io\<close>, and any error returned by \<open>fmt.Sscanf\<close>.
\<close>

datatype error =
    errOutOfMemory
  | errInternalError
  | errBadFormat
  | errUnknownCommand
  | errBuried
  | errExpectedCrlf
  | errJobTooBig
  | errDraining
  | errDeadlineSoon
  | errTimedOut
  | errNotFound
  | errUnknown string
  | errNoConnection
  | errNet bool string
  | errEOF
  | errUnexpectedEOF
  | errScan

text \<open>The text of an error (\<open>err.Error()\<close>) for the errors this file creates.\<close>

fun error_text :: "error \<Rightarrow> string" where
  "error_text errOutOfMemory = ''out of memory''"
| "error_text errInternalError = ''internal error''"
| "error_text errBadFormat = ''bad format''"
| "error_text errUnknownCommand = ''unknown command''"
| "error_text errBuried = ''buried''"
| "error_text errExpectedCrlf = ''expected CRLF''"
| "error_text errJobTooBig = ''job too big''"
| "error_text errDraining = ''draining''"
| "error_text errDeadlineSoon = ''deadline soon''"
| "error_text errTimedOut = ''timed out''"
| "error_text errNotFound = ''not found''"
| "error_text (errUnknown str) = ''unknown error: '' @ str"
| "error_text errNoConnection = ''No connection to beanstalkd''"
| "error_text (errNet t msg) = msg"
| "error_text errEOF = ''EOF''"
| "error_text errUnexpectedEOF = ''unexpected EOF''"
| "error_text errScan = ''scan error''"

text \<open>
  The test of \<open>sendAll\<close> on a write error:
  \<open>nerr, ok := err.(net.Error); ok && nerr.Temporary()\<close>.
\<close>

fun Temporary :: "error \<Rightarrow> bool" where
  "Temporary (errNet t msg) = t"
| "Temporary e = False"

subsection \<open>Constants and the error table\<close>

definition defaultPriority :: "64 word" where
  "defaultPriority = push_bit 31 1"

definition defaultTTR :: "64 word" where
  "defaultTTR = 120"

definition errorTable :: "string \<rightharpoonup> error" where
  "errorTable = map_of
     [(''DEADLINE_SOON'' @ CRLF, errDeadlineSoon),
      (''TIMED_OUT'' @ CRLF, errTimedOut),
      (''EXPECTED_CRLF'' @ CRLF, errExpectedCrlf),
      (''JOB_TOO_BIG'' @ CRLF, errJobTooBig),
      (''DRAINING'' @ CRLF, errDraining),
      (''BURIED'' @ CRLF, errBuried),
      (''NOT_FOUND'' @ CRLF, errNotFound),
      (''OUT_OF_MEMORY'' @ CRLF, errOutOfMemory),
      (''INTERNAL_ERROR'' @ CRLF, errInternalError),
      (''BAD_FORMAT'' @ CRLF, errBadFormat),
      (''UNKNOWN_COMMAND'' @ CRLF, errUnknownCommand)]"

definition parseBeanstalkError :: "string \<Rightarrow> error" where
  "parseBeanstalkError str =
     (case errorTable str of Some err \<Rightarrow> err | None \<Rightarrow> errUnknown str)"

subsection \<open>Decimal rendering: \<open>strconv.Itoa\<close>, \<open>strconv.FormatUint\<close>, \<open>%d\<close>\<close>

definition digit_char :: "nat \<Rightarrow> char" where
  "digit_char d = ''0123456789'' ! d"

function decimal :: "nat \<Rightarrow> string" where
  "decimal n = (if n < 10 then [digit_char n] else decimal (n div 10) @ [digit_char (n mod 10)])"
  by pat_completeness auto
termination
  by (relation "measure (\<lambda>n. n)") auto

definition utoa :: "64 word \<Rightarrow> string" where
  "utoa i = decimal (unat i)"

definition itoa :: "int \<Rightarrow> string" where
  "itoa i = (if i < 0 then CHR ''-'' # decimal (nat (- i)) else decimal (nat i))"

subsection \<open>The connection\<close>

text \<open>
  The client owns a socket and a buffered reader over it. What the socket does is the
  environment of the program, so it is part of the state:
  \<^item> \<open>conn\<close>: whether \<open>beanstalkd.conn\<close> is non-nil;
  \<^item> \<open>writes\<close>: the outcome of every future call of \<open>conn.Write\<close>, in order: how many
    bytes the socket is ready to take at that call, and the error it reports;
  \<^item> \<open>sent\<close>: the bytes the socket has taken so far;
  \<^item> \<open>rx\<close>: the bytes the buffered reader will deliver, in order; after them the stream
    ends (\<open>io.EOF\<close>);
  \<^item> \<open>close_result\<close>: what \<open>conn.Close()\<close> returns; \<open>closed\<close>: whether it was called;
  \<^item> \<open>warnings\<close>: the messages passed to \<open>LogWarning\<close>.
\<close>

datatype wout = WOut nat "error option"

record beanstalkd =
  conn :: bool
  writes :: "nat \<Rightarrow> wout"
  sent :: string
  rx :: string
  close_result :: "error option"
  closed :: bool
  warnings :: "string list"

text \<open>
  \<open>conn.Write(p)\<close> honours the contract of \<open>io.Writer\<close>: it returns \<open>n\<close> with
  \<open>0 \<le> n \<le> len(p)\<close>, the number of bytes of \<open>p\<close> it has written, and an error or nil.
\<close>

definition conn_Write :: "beanstalkd \<Rightarrow> string \<Rightarrow> (nat \<times> error option) \<times> beanstalkd" where
  "conn_Write b p =
     (case writes b 0 of WOut k err \<Rightarrow>
        ((min k (length p), err),
         b\<lparr>writes := (\<lambda>i. writes b (Suc i)), sent := sent b @ take k p\<rparr>))"

text \<open>
  The loop of \<open>sendAll\<close>. It runs as long as the socket answers with short writes or
  temporary errors, so it need not end: \<open>None\<close> is the loop that never returns.
\<close>

partial_function (option) sendAll_loop ::
  "beanstalkd \<Rightarrow> nat \<Rightarrow> string \<Rightarrow> nat \<Rightarrow> ((nat \<times> error option) \<times> beanstalkd) option" where
  "sendAll_loop b lengthData toWrite totalWritten =
     (if totalWritten < lengthData then
        (case conn_Write b toWrite of ((n, err), b') \<Rightarrow>
           (case err of
              Some e \<Rightarrow>
                if \<not> Temporary e then Some ((totalWritten, Some e), b')
                else sendAll_loop b' lengthData (drop n toWrite) (totalWritten + n)
            | None \<Rightarrow> sendAll_loop b' lengthData (drop n toWrite) (totalWritten + n)))
      else Some ((totalWritten, None), b))"

definition sendAll :: "beanstalkd \<Rightarrow> string \<Rightarrow> ((nat \<times> error option) \<times> beanstalkd) option" where
  "sendAll b data =
     (if \<not> conn b then Some ((0, Some errNoConnection), b)
      else sendAll_loop b (length data) data 0)"

text \<open>
  \<open>bufReader.ReadString('\n')\<close>: the bytes up to and including the first line feed; when
  the stream ends before one, the bytes read and \<open>io.EOF\<close>.
\<close>

definition ReadString :: "beanstalkd \<Rightarrow> (string \<times> error option) \<times> beanstalkd" where
  "ReadString b =
     (let line = takeWhile (\<lambda>ch. ch \<noteq> CHR 0x0A) (rx b);
          rest = dropWhile (\<lambda>ch. ch \<noteq> CHR 0x0A) (rx b)
      in case rest of
           [] \<Rightarrow> ((line, Some errEOF), b\<lparr>rx := []\<rparr>)
         | nl # rest' \<Rightarrow> ((line @ [nl], None), b\<lparr>rx := rest'\<rparr>))"

text \<open>
  \<open>io.ReadFull(bufReader, data)\<close> for a buffer of \<open>k\<close> bytes: the bytes read and nil, or
  fewer bytes and \<open>io.EOF\<close> (nothing was read) or \<open>io.ErrUnexpectedEOF\<close>.
\<close>

definition ReadFull :: "beanstalkd \<Rightarrow> nat \<Rightarrow> (string \<times> error option) \<times> beanstalkd" where
  "ReadFull b k =
     (if k \<le> length (rx b) then ((take k (rx b), None), b\<lparr>rx := drop k (rx b)\<rparr>)
      else if rx b = [] then (([], Some errEOF), b)
      else ((rx b, Some errUnexpectedEOF), b\<lparr>rx := []\<rparr>))"

definition sendCommand :: "beanstalkd \<Rightarrow> string \<Rightarrow> ((string \<times> error option) \<times> beanstalkd) option" where
  "sendCommand b command =
     (case sendAll b command of
        None \<Rightarrow> None
      | Some ((n, Some err), b1) \<Rightarrow> Some (([], Some err), b1)
      | Some ((n, None), b1) \<Rightarrow>
          (case ReadString b1 of
             ((resp, Some err), b2) \<Rightarrow> Some (([], Some err), b2)
           | ((resp, None), b2) \<Rightarrow> Some ((resp, None), b2)))"

definition sendCommandAndCheck ::
  "beanstalkd \<Rightarrow> string \<Rightarrow> string \<Rightarrow> (error option \<times> beanstalkd) option" where
  "sendCommandAndCheck b command expected =
     (case sendCommand b command of
        None \<Rightarrow> None
      | Some ((resp, Some err), b1) \<Rightarrow> Some (Some err, b1)
      | Some ((resp, None), b1) \<Rightarrow>
          if resp \<noteq> expected then Some (Some (parseBeanstalkError resp), b1)
          else Some (None, b1))"

subsection \<open>Scanning a response line: \<open>fmt.Sscanf\<close>\<close>

text \<open>
  The client scans a response with the formats \<open>"WATCHING %d\r\n"\<close>,
  \<open>"INSERTED %d\r\n"\<close>, \<open>"BURIED %d\r\n"\<close>, \<open>"KICKED %d\r\n"\<close> and
  \<open>"RESERVED %d %d\r\n"\<close>. The functions below are what \<open>fmt.Sscanf\<close> (with
  integers of 64 bits) does with the pieces of these formats; the verb \<open>%d\<close> takes the
  decimal digits \<open>0123456789\<close> for its number. The scanner reads the
  input as UTF-8; \<open>space_width\<close> is the number of bytes of a leading rune that the
  scanner takes for a space other than the line feed, and 0 when there is none.
\<close>

fun space_width :: "string \<Rightarrow> nat" where
  "space_width [] = 0"
| "space_width (c # cs) =
     (if c \<in> set [CHR 0x09, CHR 0x0B, CHR 0x0C, CHR 0x0D, CHR 0x20] then 1
      else if c = CHR 0xC2 then
        (case cs of
           c1 # _ \<Rightarrow> if c1 = CHR 0x85 \<or> c1 = CHR 0xA0 then 2 else 0
         | [] \<Rightarrow> 0)
      else if c = CHR 0xE1 then (if prefix [CHR 0x9A, CHR 0x80] cs then 3 else 0)
      else if c = CHR 0xE2 then
        (case cs of
           c1 # c2 # _ \<Rightarrow>
             if c1 = CHR 0x80 \<and>
                ((0x80 \<le> (of_char c2 :: nat) \<and> (of_char c2 :: nat) \<le> 0x8A) \<or>
                 c2 = CHR 0xA8 \<or> c2 = CHR 0xA9 \<or> c2 = CHR 0xAF)
             then 3
             else if c1 = CHR 0x81 \<and> c2 = CHR 0x9F then 3
             else 0
         | _ \<Rightarrow> 0)
      else if c = CHR 0xE3 then (if prefix [CHR 0x80, CHR 0x80] cs then 3 else 0)
      else 0)"

text \<open>The scanner's loop \<open>for isSpace(inputc) && inputc != '\n'\<close>.\<close>

function skip_spaces :: "string \<Rightarrow> string" where
  "skip_spaces s = (if space_width s = 0 then s else skip_spaces (drop (space_width s) s))"
  by pat_completeness auto
termination
proof (relation "measure length")
  show "wf (measure length)" by simp
next
  fix s :: string
  assume "space_width s \<noteq> 0"
  then have "s \<noteq> []" by auto
  with \<open>space_width s \<noteq> 0\<close> show "(drop (space_width s) s, s) \<in> measure length"
    by simp
qed

text \<open>Literal text of the format: the input must carry the same bytes.\<close>

definition fmt_literal :: "string \<Rightarrow> string \<Rightarrow> string option" where
  "fmt_literal lit s = (if prefix lit s then Some (drop (length lit) s) else None)"

text \<open>
  A space of the format that stands alone: the input is at its end, or has at least one
  space there, and no line feed; the spaces are consumed.
\<close>

definition fmt_space :: "string \<Rightarrow> string option" where
  "fmt_space s =
     (case s of
        [] \<Rightarrow> Some []
      | c # cs \<Rightarrow>
          if c = CHR 0x0A then None
          else if space_width s = 0 then None
          else Some (skip_spaces s))"

text \<open>
  The \<open>"\r\n"\<close> that ends the format: spaces of the input are skipped, then the input is
  at its end or has a line feed, which is consumed.
\<close>

definition fmt_newline :: "string \<Rightarrow> string option" where
  "fmt_newline s =
     (case skip_spaces s of
        [] \<Rightarrow> Some []
      | c # cs \<Rightarrow> if c = CHR 0x0A then Some cs else None)"

text \<open>\<open>SkipSpace\<close> before a verb: a line feed there is an error.\<close>

definition SkipSpace :: "string \<Rightarrow> string option" where
  "SkipSpace s =
     (case skip_spaces s of
        [] \<Rightarrow> Some []
      | c # cs \<Rightarrow> if c = CHR 0x0A then None else Some (c # cs))"

definition is_digit :: "char \<Rightarrow> bool" where
  "is_digit c = (c \<in> set ''0123456789'')"

definition digit_val :: "char \<Rightarrow> nat" where
  "digit_val c = of_char c - 48"

text \<open>
  \<open>strconv.ParseUint(tok, 10, 64)\<close> and \<open>strconv.ParseInt(tok, 10, 64)\<close>: \<open>None\<close> is a
  syntax error or a value out of range.
\<close>

definition ParseUint :: "string \<Rightarrow> nat option" where
  "ParseUint tok =
     (if tok = [] then None
      else if list_all is_digit tok then
        (let v = foldl (\<lambda>a c. 10 * a + digit_val c) 0 tok
         in if v < 2 ^ 64 then Some v else None)
      else None)"

definition ParseInt :: "string \<Rightarrow> int option" where
  "ParseInt tok =
     (case tok of
        [] \<Rightarrow> None
      | c # cs \<Rightarrow>
          if c = CHR ''-'' then
            (case ParseUint cs of
               None \<Rightarrow> None
             | Some v \<Rightarrow> if v \<le> 2 ^ 63 then Some (- int v) else None)
          else
            (case ParseUint (if c = CHR ''+'' then cs else tok) of
               None \<Rightarrow> None
             | Some v \<Rightarrow> if v < 2 ^ 63 then Some (int v) else None))"

text \<open>The verb \<open>%d\<close> for an argument of type \<open>*uint64\<close>: the value and the rest of the input.\<close>

definition scanUint :: "string \<Rightarrow> (64 word \<times> string) option" where
  "scanUint s =
     (case SkipSpace s of
        None \<Rightarrow> None
      | Some s1 \<Rightarrow>
          (let tok = takeWhile is_digit s1
           in case ParseUint tok of
                None \<Rightarrow> None
              | Some v \<Rightarrow> Some (word_of_nat v, dropWhile is_digit s1)))"

text \<open>The verb \<open>%d\<close> for an argument of type \<open>*int\<close>: a sign is accepted before the digits.\<close>

definition scanInt :: "string \<Rightarrow> (int \<times> string) option" where
  "scanInt s =
     (case SkipSpace s of
        None \<Rightarrow> None
      | Some s1 \<Rightarrow>
          (let sgn = (case s1 of
                        [] \<Rightarrow> []
                      | c # cs \<Rightarrow> if c = CHR ''+'' \<or> c = CHR ''-'' then [c] else []);
               s2 = drop (length sgn) s1;
               tok = takeWhile is_digit s2
           in if tok = [] then None
              else case ParseInt (sgn @ tok) of
                     None \<Rightarrow> None
                   | Some v \<Rightarrow> Some (v, dropWhile is_digit s2)))"

text \<open>
  \<open>fmt.Sscanf(resp, lit + " %d\r\n", &id)\<close> with \<open>id\<close> a \<open>uint64\<close> that starts at 0:
  the value of \<open>id\<close> afterwards (it is assigned as soon as the number is read) and the
  error.
\<close>

definition Sscanf_uint :: "string \<Rightarrow> string \<Rightarrow> 64 word \<times> error option" where
  "Sscanf_uint resp lit =
     (case fmt_literal lit resp of
        None \<Rightarrow> (0, Some errScan)
      | Some s1 \<Rightarrow>
          (case fmt_space s1 of
             None \<Rightarrow> (0, Some errScan)
           | Some s2 \<Rightarrow>
               (case scanUint s2 of
                  None \<Rightarrow> (0, Some errScan)
                | Some (v, s3) \<Rightarrow>
                    (case fmt_newline s3 of
                       None \<Rightarrow> (v, Some errScan)
                     | Some s4 \<Rightarrow> (v, None)))))"

text \<open>The same for an argument of type \<open>int\<close> (\<open>"WATCHING %d\r\n"\<close>).\<close>

definition Sscanf_int :: "string \<Rightarrow> string \<Rightarrow> int \<times> error option" where
  "Sscanf_int resp lit =
     (case fmt_literal lit resp of
        None \<Rightarrow> (0, Some errScan)
      | Some s1 \<Rightarrow>
          (case fmt_space s1 of
             None \<Rightarrow> (0, Some errScan)
           | Some s2 \<Rightarrow>
               (case scanInt s2 of
                  None \<Rightarrow> (0, Some errScan)
                | Some (v, s3) \<Rightarrow>
                    (case fmt_newline s3 of
                       None \<Rightarrow> (v, Some errScan)
                     | Some s4 \<Rightarrow> (v, None)))))"

text \<open>\<open>fmt.Sscanf(resp, "RESERVED %d %d\r\n", &(job.ID), &dataLen)\<close>.\<close>

definition Sscanf_RESERVED :: "string \<Rightarrow> 64 word \<times> int \<times> error option" where
  "Sscanf_RESERVED resp =
     (case fmt_literal ''RESERVED'' resp of
        None \<Rightarrow> (0, 0, Some errScan)
      | Some s1 \<Rightarrow>
          (case fmt_space s1 of
             None \<Rightarrow> (0, 0, Some errScan)
           | Some s2 \<Rightarrow>
               (case scanUint s2 of
                  None \<Rightarrow> (0, 0, Some errScan)
                | Some (v, s3) \<Rightarrow>
                    (case fmt_space s3 of
                       None \<Rightarrow> (v, 0, Some errScan)
                     | Some s4 \<Rightarrow>
                         (case scanInt s4 of
                            None \<Rightarrow> (v, 0, Some errScan)
                          | Some (l, s5) \<Rightarrow>
                              (case fmt_newline s5 of
                                 None \<Rightarrow> (v, l, Some errScan)
                               | Some s6 \<Rightarrow> (v, l, None)))))))"

subsection \<open>The operations\<close>

text \<open>
  An operation returns \<open>None\<close> when it never returns (the loop of \<open>sendAll\<close> runs for
  ever), and otherwise its results and the state it leaves.
\<close>

definition Close :: "beanstalkd \<Rightarrow> beanstalkd option" where
  "Close b =
     (case sendAll b (''quit '' @ CRLF) of
        None \<Rightarrow> None
      | Some (r, b1) \<Rightarrow>
          if conn b1 then
            (case close_result b1 of
               Some err \<Rightarrow>
                 Some (b1\<lparr>closed := True,
                          warnings := warnings b1 @
                            [''Failed to close the cnx to beanstalkd: '' @ error_text err]\<rparr>)
             | None \<Rightarrow> Some (b1\<lparr>closed := True\<rparr>))
          else Some b1)"

definition Watch :: "beanstalkd \<Rightarrow> string \<Rightarrow> (error option \<times> beanstalkd) option" where
  "Watch b tubename =
     (case sendCommand b (''watch '' @ tubename @ CRLF) of
        None \<Rightarrow> None
      | Some ((resp, Some err), b1) \<Rightarrow> Some (Some err, b1)
      | Some ((resp, None), b1) \<Rightarrow>
          (case Sscanf_int resp ''WATCHING'' of
             (tubeCount, Some err) \<Rightarrow> Some (Some (parseBeanstalkError resp), b1)
           | (tubeCount, None) \<Rightarrow> Some (None, b1)))"

definition Use :: "beanstalkd \<Rightarrow> string \<Rightarrow> (error option \<times> beanstalkd) option" where
  "Use b tubename =
     sendCommandAndCheck b (''use '' @ tubename @ CRLF) (''USING '' @ tubename @ CRLF)"

definition Put :: "beanstalkd \<Rightarrow> string \<Rightarrow> ((64 word \<times> error option) \<times> beanstalkd) option" where
  "Put b data =
     (case sendCommand b
             (''put '' @ utoa defaultPriority @ '' 0 '' @ utoa defaultTTR @ '' '' @
              itoa (int (length data)) @ CRLF @ data @ CRLF) of
        None \<Rightarrow> None
      | Some ((resp, Some err), b1) \<Rightarrow> Some ((0, Some err), b1)
      | Some ((resp, None), b1) \<Rightarrow>
          if prefix ''IN'' resp then
            (case Sscanf_uint resp ''INSERTED'' of (jid, err) \<Rightarrow> Some ((jid, err), b1))
          else if prefix ''BU'' resp then
            (case Sscanf_uint resp ''BURIED'' of (jid, err) \<Rightarrow> Some ((jid, Some errBuried), b1))
          else Some ((0, Some (parseBeanstalkError resp)), b1))"

definition Delete :: "beanstalkd \<Rightarrow> 64 word \<Rightarrow> (error option \<times> beanstalkd) option" where
  "Delete b jid = sendCommandAndCheck b (''delete '' @ utoa jid @ CRLF) (''DELETED'' @ CRLF)"

text \<open>
  A Go panic is a result of its own. \<open>readData\<close> makes a buffer of \<open>dataLen + 2\<close> bytes,
  fills it with \<open>io.ReadFull\<close>, and returns \<open>data[:n-2]\<close>, which panics when \<open>n - 2\<close> is
  negative. The sum \<open>dataLen + 2\<close> wraps around at 64 bits. \<open>make\<close> panics on a negative
  length and on a length above the allocation limit of the runtime, \<open>maxAlloc\<close>, which is
  \<open>2 ^ 48\<close> bytes on linux/amd64; an allocation within the limit is taken to succeed.
\<close>

datatype 'a go_result = Returned 'a | Panicked

definition int_wrap :: "int \<Rightarrow> int" where
  "int_wrap x = sint (word_of_int x :: 64 word)"

definition maxAlloc :: int where
  "maxAlloc = 2 ^ 48"

definition readData :: "beanstalkd \<Rightarrow> int \<Rightarrow> (string \<times> error option) go_result \<times> beanstalkd" where
  "readData b dataLen =
     (if int_wrap (dataLen + 2) < 0 \<or> maxAlloc < int_wrap (dataLen + 2) then (Panicked, b)
      else
        (case ReadFull b (nat (int_wrap (dataLen + 2))) of
           ((data, Some err), b1) \<Rightarrow> (Returned ([], Some err), b1)
         | ((data, None), b1) \<Rightarrow>
             if int (length data) - 2 < 0 then (Panicked, b1)
             else (Returned (take (nat (int (length data) - 2)) data, None), b1)))"

record Job =
  ID :: "64 word"
  Data :: string

definition Reserve ::
  "beanstalkd \<Rightarrow> ((Job option \<times> error option) go_result \<times> beanstalkd) option" where
  "Reserve b =
     (case sendCommand b (''reserve'' @ CRLF) of
        None \<Rightarrow> None
      | Some ((resp, Some err), b1) \<Rightarrow> Some (Returned (None, Some err), b1)
      | Some ((resp, None), b1) \<Rightarrow>
          if prefix ''RESERVED'' resp then
            (case Sscanf_RESERVED resp of
               (jid, dataLen, Some err) \<Rightarrow> Some (Returned (None, Some err), b1)
             | (jid, dataLen, None) \<Rightarrow>
                 (case readData b1 dataLen of
                    (Panicked, b2) \<Rightarrow> Some (Panicked, b2)
                  | (Returned (data, err), b2) \<Rightarrow>
                      Some (Returned (Some \<lparr>ID = jid, Data = data\<rparr>, err), b2)))
          else Some (Returned (None, Some (parseBeanstalkError resp)), b1))"

definition Bury :: "beanstalkd \<Rightarrow> 64 word \<Rightarrow> (error option \<times> beanstalkd) option" where
  "Bury b jid =
     sendCommandAndCheck b
       (''bury '' @ utoa jid @ '' '' @ utoa defaultPriority @ CRLF) (''BURIED'' @ CRLF)"

definition Release :: "beanstalkd \<Rightarrow> 64 word \<Rightarrow> (error option \<times> beanstalkd) option" where
  "Release b jid =
     sendCommandAndCheck b
       (''release '' @ utoa jid @ '' '' @ utoa defaultPriority @ '' '' @ itoa 0 @ CRLF)
       (''RELEASED'' @ CRLF)"

definition KickJob :: "beanstalkd \<Rightarrow> 64 word \<Rightarrow> (error option \<times> beanstalkd) option" where
  "KickJob b jid = sendCommandAndCheck b (''kick-job '' @ utoa jid @ CRLF) (''KICKED'' @ CRLF)"

definition Kick :: "beanstalkd \<Rightarrow> 64 word \<Rightarrow> ((64 word \<times> error option) \<times> beanstalkd) option" where
  "Kick b bound =
     (case sendCommand b (''kick '' @ utoa bound @ CRLF) of
        None \<Rightarrow> None
      | Some ((resp, Some err), b1) \<Rightarrow> Some ((0, Some err), b1)
      | Some ((resp, None), b1) \<Rightarrow>
          if prefix ''KICKED'' resp then
            (case Sscanf_uint resp ''KICKED'' of (kicked, err) \<Rightarrow> Some ((kicked, err), b1))
          else Some ((0, Some (parseBeanstalkError resp)), b1))"

text \<open>
  A socket for examples: its first writes have the outcomes of the list \<open>outs\<close>, and every
  later write has the outcome \<open>final\<close>.
\<close>

definition script :: "wout list \<Rightarrow> wout \<Rightarrow> nat \<Rightarrow> wout" where
  "script outs final i = (if i < length outs then outs ! i else final)"

definition client :: "(nat \<Rightarrow> wout) \<Rightarrow> string \<Rightarrow> beanstalkd" where
  "client ws input =
     \<lparr>conn = True, writes = ws, sent = [], rx = input, close_result = None,
      closed = False, warnings = []\<rparr>"

text \<open>
  The operations that compare the response with a literal, and what the protocol documents
  for each: the command it sends and the response it requires.
\<close>

datatype literal_op =
    UseOp string
  | DeleteOp "64 word"
  | BuryOp "64 word"
  | ReleaseOp "64 word"
  | KickJobOp "64 word"

fun call :: "beanstalkd \<Rightarrow> literal_op \<Rightarrow> (error option \<times> beanstalkd) option" where
  "call b (UseOp T) = Use b T"
| "call b (DeleteOp jid) = Delete b jid"
| "call b (BuryOp jid) = Bury b jid"
| "call b (ReleaseOp jid) = Release b jid"
| "call b (KickJobOp jid) = KickJob b jid"

fun documented_command :: "literal_op \<Rightarrow> string" where
  "documented_command (UseOp T) = ''use '' @ T @ CRLF"
| "documented_command (DeleteOp jid) = ''delete '' @ utoa jid @ CRLF"
| "documented_command (BuryOp jid) = ''bury '' @ utoa jid @ '' 2147483648'' @ CRLF"
| "documented_command (ReleaseOp jid) = ''release '' @ utoa jid @ '' 2147483648 0'' @ CRLF"
| "documented_command (KickJobOp jid) = ''kick-job '' @ utoa jid @ CRLF"

fun documented_reply :: "literal_op \<Rightarrow> string" where
  "documented_reply (UseOp T) = ''USING '' @ T @ CRLF"
| "documented_reply (DeleteOp jid) = ''DELETED'' @ CRLF"
| "documented_reply (BuryOp jid) = ''BURIED'' @ CRLF"
| "documented_reply (ReleaseOp jid) = ''RELEASED'' @ CRLF"
| "documented_reply (KickJobOp jid) = ''KICKED'' @ CRLF"

text \<open>A write that takes no byte and reports nothing worse than a temporary error.\<close>

definition no_progress :: "wout \<Rightarrow> bool" where
  "no_progress w =
     (case w of
        WOut k err \<Rightarrow> k = 0 \<and> (case err of None \<Rightarrow> True | Some e \<Rightarrow> Temporary e))"

text \<open>The eleven response lines of the error table, as the protocol documents them.\<close>

definition error_lines :: "string list" where
  "error_lines =
     map (\<lambda>w. w @ CRLF)
       [''OUT_OF_MEMORY'', ''INTERNAL_ERROR'', ''BAD_FORMAT'', ''UNKNOWN_COMMAND'', ''BURIED'',
        ''EXPECTED_CRLF'', ''JOB_TOO_BIG'', ''DRAINING'', ''DEADLINE_SOON'', ''TIMED_OUT'',
        ''NOT_FOUND'']"

text \<open>
  All the operations that read a response: the command each sends, the error each returns
  (with the state it leaves), and the response lines each hands to \<open>parseBeanstalkError\<close>.
  \<open>set_aside\<close> holds of two replies with a line of the error table: \<open>BURIED\<close> in reply
  to \<open>Bury\<close>, which is the literal that \<open>Bury\<close> requires, and \<open>INTERNAL_ERROR\<close> in reply
  to \<open>Put\<close>.
\<close>

datatype operation =
    WatchOp string
  | PutOp string
  | ReserveOp
  | KickOp "64 word"
  | LiteralOp literal_op

fun documented_request :: "operation \<Rightarrow> string" where
  "documented_request (WatchOp T) = ''watch '' @ T @ CRLF"
| "documented_request (PutOp P) =
     ''put 2147483648 0 120 '' @ itoa (int (length P)) @ CRLF @ P @ CRLF"
| "documented_request ReserveOp = ''reserve'' @ CRLF"
| "documented_request (KickOp bound) = ''kick '' @ utoa bound @ CRLF"
| "documented_request (LiteralOp l) = documented_command l"

fun op_error :: "beanstalkd \<Rightarrow> operation \<Rightarrow> (error option \<times> beanstalkd) go_result option" where
  "op_error b (WatchOp T) = map_option Returned (Watch b T)"
| "op_error b (PutOp P) = map_option (\<lambda>r. Returned (snd (fst r), snd r)) (Put b P)"
| "op_error b ReserveOp =
     map_option
       (\<lambda>r. case fst r of Panicked \<Rightarrow> Panicked | Returned x \<Rightarrow> Returned (snd x, snd r))
       (Reserve b)"
| "op_error b (KickOp bound) = map_option (\<lambda>r. Returned (snd (fst r), snd r)) (Kick b bound)"
| "op_error b (LiteralOp l) = map_option Returned (call b l)"

fun classified :: "operation \<Rightarrow> string \<Rightarrow> bool" where
  "classified (WatchOp T) resp = (snd (Sscanf_int resp ''WATCHING'') \<noteq> None)"
| "classified (PutOp P) resp = (\<not> prefix ''IN'' resp \<and> \<not> prefix ''BU'' resp)"
| "classified ReserveOp resp = (\<not> prefix ''RESERVED'' resp)"
| "classified (KickOp bound) resp = (\<not> prefix ''KICKED'' resp)"
| "classified (LiteralOp l) resp = (resp \<noteq> documented_reply l)"

fun set_aside :: "operation \<Rightarrow> string \<Rightarrow> bool" where
  "set_aside (PutOp P) resp = (resp = ''INTERNAL_ERROR'' @ CRLF)"
| "set_aside (LiteralOp (BuryOp jid)) resp = (resp = ''BURIED'' @ CRLF)"
| "set_aside opn resp = False"

text \<open>A stream for examples: one byte more than the allocation limit.\<close>

definition long_stream :: string where
  "long_stream = replicate (2 ^ 48 + 1) (CHR ''a'')"

section \<open>Facts about the write loop\<close>

declare decimal.simps [simp del]
declare skip_spaces.simps [simp del]

lemma conn_Write_count: "conn_Write b p = ((n, err), b') \<Longrightarrow> n \<le> length p"
  by (auto simp: conn_Write_def split: wout.splits)

lemma conn_Write_state:
  "conn_Write b p = ((n, err), b') \<Longrightarrow>
     sent b' = sent b @ take n p \<and> rx b' = rx b \<and> conn b' = conn b \<and>
     close_result b' = close_result b \<and> closed b' = closed b \<and> warnings b' = warnings b"
  by (auto simp: conn_Write_def min_def split: wout.splits)

text \<open>
  Partial correctness of the loop is proved by the induction rule of the fixed point: what
  holds of every result of the body, given that it holds of the results of the inner
  calls, holds of every result of the loop.
\<close>

lemma sendAll_loop_frame_aux:
  assumes "sendAll_loop b L tw t = Some y"
  shows "rx (snd y) = rx b \<and> conn (snd y) = conn b \<and> close_result (snd y) = close_result b \<and>
     closed (snd y) = closed b \<and> warnings (snd y) = warnings b"
proof (rule sendAll_loop.raw_induct
    [where P = "\<lambda>b L tw t y. rx (snd y) = rx b \<and> conn (snd y) = conn b \<and>
       close_result (snd y) = close_result b \<and> closed (snd y) = closed b \<and>
       warnings (snd y) = warnings b", OF _ assms], goal_cases)
  case (1 loop b L tw t y)
  show ?case
  proof (cases "t < L")
    case False
    with 1(2) show ?thesis by auto
  next
    case True
    obtain n err b1 where w: "conn_Write b tw = ((n, err), b1)"
      by (metis prod.exhaust)
    note st = conn_Write_state [OF w]
    show ?thesis
    proof (cases "\<exists>e. err = Some e \<and> \<not> Temporary e")
      case True
      with 1(2) \<open>t < L\<close> w st show ?thesis by auto
    next
      case False
      with 1(2) \<open>t < L\<close> w have "loop b1 L (drop n tw) (t + n) = Some y"
        by (auto split: option.splits if_splits)
      from 1(1) [OF this] st show ?thesis by simp
    qed
  qed
qed

lemma sendAll_loop_frame:
  assumes "sendAll_loop b L tw t = Some (r, b')"
  shows "rx b' = rx b \<and> conn b' = conn b \<and> close_result b' = close_result b \<and>
         closed b' = closed b \<and> warnings b' = warnings b"
  using sendAll_loop_frame_aux [OF assms] by simp

lemma sendAll_loop_success_aux:
  assumes "sendAll_loop b L tw t = Some y"
  shows "t + length tw = L \<longrightarrow> snd (fst y) = None \<longrightarrow>
     fst (fst y) = L \<and> sent (snd y) = sent b @ tw"
proof (rule sendAll_loop.raw_induct
    [where P = "\<lambda>b L tw t y. t + length tw = L \<longrightarrow> snd (fst y) = None \<longrightarrow>
       fst (fst y) = L \<and> sent (snd y) = sent b @ tw", OF _ assms], goal_cases)
  case (1 loop b L tw t y)
  show ?case
  proof (intro impI)
    assume inv: "t + length tw = L" and ok: "snd (fst y) = None"
    show "fst (fst y) = L \<and> sent (snd y) = sent b @ tw"
    proof (cases "t < L")
      case False
      with 1(2) inv show ?thesis by auto
    next
      case True
      obtain n err b1 where w: "conn_Write b tw = ((n, err), b1)"
        by (metis prod.exhaust)
      note st = conn_Write_state [OF w] and le = conn_Write_count [OF w]
      show ?thesis
      proof (cases "\<exists>e. err = Some e \<and> \<not> Temporary e")
        case True
        with 1(2) ok \<open>t < L\<close> w show ?thesis by auto
      next
        case False
        with 1(2) \<open>t < L\<close> w have "loop b1 L (drop n tw) (t + n) = Some y"
          by (auto split: option.splits if_splits)
        moreover from inv le have "t + n + length (drop n tw) = L" by simp
        ultimately have "fst (fst y) = L \<and> sent (snd y) = sent b1 @ drop n tw"
          using 1(1) ok by blast
        with st show ?thesis by simp
      qed
    qed
  qed
qed

lemma sendAll_loop_success:
  assumes "sendAll_loop b L tw t = Some ((k, None), b')" and "t + length tw = L"
  shows "k = L \<and> sent b' = sent b @ tw"
  using sendAll_loop_success_aux [OF assms(1)] assms(2) by simp

lemma sendAll_loop_done:
  "\<not> t < L \<Longrightarrow> sendAll_loop b L tw t = Some ((t, None), b)"
  by (subst sendAll_loop.simps) simp

lemma sendAll_loop_abort:
  "t < L \<Longrightarrow> writes b 0 = WOut k (Some e) \<Longrightarrow> \<not> Temporary e \<Longrightarrow>
   sendAll_loop b L tw t =
     Some ((t, Some e), b\<lparr>writes := (\<lambda>i. writes b (Suc i)), sent := sent b @ take k tw\<rparr>)"
  by (subst sendAll_loop.simps) (simp add: conn_Write_def)

lemma sendAll_loop_retry:
  "t < L \<Longrightarrow> writes b 0 = WOut k err \<Longrightarrow>
   (case err of None \<Rightarrow> True | Some e \<Rightarrow> Temporary e) \<Longrightarrow>
   sendAll_loop b L tw t =
     sendAll_loop (b\<lparr>writes := (\<lambda>i. writes b (Suc i)), sent := sent b @ take k tw\<rparr>) L
       (drop (min k (length tw)) tw) (t + min k (length tw))"
  by (subst sendAll_loop.simps) (simp add: conn_Write_def split: option.splits)

lemma script_Cons [simp]:
  "script (x # xs) d 0 = x" "(\<lambda>i. script (x # xs) d (Suc i)) = script xs d"
  by (auto simp: script_def)

lemma script_Nil [simp]: "script [] d = (\<lambda>i. d)"
  by (auto simp: script_def)

lemma sendAll_frame:
  assumes "sendAll b d = Some (r, b')"
  shows "rx b' = rx b \<and> conn b' = conn b \<and> close_result b' = close_result b \<and>
         closed b' = closed b \<and> warnings b' = warnings b"
proof (cases "conn b")
  case True
  with assms have "sendAll_loop b (length d) d 0 = Some (r, b')"
    by (simp add: sendAll_def)
  then show ?thesis by (rule sendAll_loop_frame)
next
  case False
  with assms show ?thesis by (simp add: sendAll_def)
qed

lemma sendAll_success:
  assumes "sendAll b d = Some ((k, None), b')"
  shows "conn b \<and> k = length d \<and> sent b' = sent b @ d"
proof (cases "conn b")
  case True
  with assms have "sendAll_loop b (length d) d 0 = Some ((k, None), b')"
    by (simp add: sendAll_def)
  from sendAll_loop_success [OF this] True show ?thesis by simp
next
  case False
  with assms show ?thesis by (simp add: sendAll_def)
qed

text \<open>A socket that takes the whole buffer at the first write.\<close>

lemma sendAll_one_write:
  assumes "conn b" and "writes b 0 = WOut k None" and "length d \<le> k" and "d \<noteq> []"
  shows "sendAll b d =
     Some ((length d, None), b\<lparr>writes := (\<lambda>i. writes b (Suc i)), sent := sent b @ d\<rparr>)"
proof -
  from assms(4) have "0 < length d" by simp
  from sendAll_loop_retry [OF this assms(2), of d] assms(1,3) show ?thesis
    by (simp add: sendAll_def sendAll_loop_done)
qed

text \<open>On a socket that never makes progress and never fails for good, the loop never ends.\<close>

lemma sendAll_loop_diverges:
  assumes stuck: "\<forall>i. no_progress (writes b i)" and lt: "t < L"
  shows "sendAll_loop b L tw t = None"
proof (rule ccontr)
  assume "sendAll_loop b L tw t \<noteq> None"
  then obtain y where y: "sendAll_loop b L tw t = Some y" by auto
  have "\<not> ((\<forall>i. no_progress (writes b i)) \<and> t < L)"
  proof (rule sendAll_loop.raw_induct
      [where P = "\<lambda>b L tw t y. \<not> ((\<forall>i. no_progress (writes b i)) \<and> t < L)", OF _ y],
      goal_cases)
    case (1 loop b L tw t y)
    show ?case
    proof
      assume a: "(\<forall>i. no_progress (writes b i)) \<and> t < L"
      then have np: "no_progress (writes b 0)" by blast
      obtain n err b1 where w: "conn_Write b tw = ((n, err), b1)"
        by (metis prod.exhaust)
      from w np have n: "n = 0" and e: "(case err of None \<Rightarrow> True | Some e \<Rightarrow> Temporary e)"
        and b1: "writes b1 = (\<lambda>i. writes b (Suc i))"
        by (auto simp: conn_Write_def no_progress_def split: wout.splits)
      from 1(2) a w e have "loop b1 L (drop n tw) (t + n) = Some y"
        by (auto split: option.splits if_splits)
      from 1(1) [OF this] a b1 n show False by simp
    qed
  qed
  with assms show False by blast
qed

section \<open>Facts about decimal numbers\<close>

lemma is_digit_iff:
  "is_digit c \<longleftrightarrow> c = CHR ''0'' \<or> c = CHR ''1'' \<or> c = CHR ''2'' \<or> c = CHR ''3'' \<or>
     c = CHR ''4'' \<or> c = CHR ''5'' \<or> c = CHR ''6'' \<or> c = CHR ''7'' \<or> c = CHR ''8'' \<or>
     c = CHR ''9''"
  by (simp add: is_digit_def)

lemma space_width_digit: "is_digit c \<Longrightarrow> space_width (c # cs) = 0"
  unfolding is_digit_iff by (elim disjE; simp)

lemma is_digit_not:
  "is_digit c \<Longrightarrow> c \<noteq> CHR 0x0A \<and> c \<noteq> CHR 0x0D \<and> c \<noteq> CHR ''-'' \<and> c \<noteq> CHR ''+'' \<and>
     c \<noteq> CHR '' '' \<and> c \<noteq> CHR ''_''"
  unfolding is_digit_iff by (elim disjE; simp)

lemma digit_char_is_digit: "d < 10 \<Longrightarrow> is_digit (digit_char d)"
proof -
  assume "d < 10"
  then have "d \<in> {0, 1, 2, 3, 4, 5, 6, 7, 8, 9}" by auto
  then show ?thesis by (auto simp: is_digit_def digit_char_def)
qed

lemma digit_val_digit_char: "d < 10 \<Longrightarrow> digit_val (digit_char d) = d"
proof -
  assume "d < 10"
  then have "d \<in> {0, 1, 2, 3, 4, 5, 6, 7, 8, 9}" by auto
  then show ?thesis by (auto simp: digit_val_def digit_char_def)
qed

lemma decimal_digits: "list_all is_digit (decimal n)"
proof (induction n rule: decimal.induct)
  case (1 n)
  show ?case
  proof (cases "n < 10")
    case True
    then show ?thesis by (subst decimal.simps) (simp add: digit_char_is_digit)
  next
    case False
    with 1 show ?thesis by (subst decimal.simps) (simp add: digit_char_is_digit)
  qed
qed

lemma decimal_not_Nil: "decimal n \<noteq> []"
  by (subst decimal.simps) simp

lemma decimal_value: "foldl (\<lambda>a c. 10 * a + digit_val c) 0 (decimal n) = n"
proof (induction n rule: decimal.induct)
  case (1 n)
  show ?case
  proof (cases "n < 10")
    case True
    then show ?thesis by (subst decimal.simps) (simp add: digit_val_digit_char)
  next
    case False
    with 1 show ?thesis by (subst decimal.simps) (simp add: digit_val_digit_char)
  qed
qed

lemma ParseUint_decimal: "n < 2 ^ 64 \<Longrightarrow> ParseUint (decimal n) = Some n"
  by (simp add: ParseUint_def decimal_not_Nil decimal_digits decimal_value)

lemma utoa_defaultPriority: "utoa defaultPriority = ''2147483648''"
  by (simp add: utoa_def defaultPriority_def decimal.simps digit_char_def)

lemma utoa_defaultTTR: "utoa defaultTTR = ''120''"
  by (simp add: utoa_def defaultTTR_def decimal.simps digit_char_def)

lemma itoa_0: "itoa 0 = ''0''"
  by (simp add: itoa_def decimal.simps digit_char_def)

section \<open>Facts about the scanner and the reader\<close>

lemma skip_spaces_id: "space_width s = 0 \<Longrightarrow> skip_spaces s = s"
  by (subst skip_spaces.simps) simp

lemma skip_spaces_SP: "skip_spaces (CHR '' '' # s) = skip_spaces s"
  by (subst skip_spaces.simps) simp

lemma skip_spaces_CR: "skip_spaces (CHR 0x0D # s) = skip_spaces s"
  by (subst skip_spaces.simps) simp

lemma skip_spaces_LF: "skip_spaces (CHR 0x0A # s) = CHR 0x0A # s"
  by (subst skip_spaces.simps) simp

lemma skip_spaces_Nil: "skip_spaces [] = []"
  by (subst skip_spaces.simps) simp

lemma decimal_Cons: "\<exists>d ds. decimal n = d # ds \<and> is_digit d"
  using decimal_not_Nil [of n] decimal_digits [of n] by (cases "decimal n") auto

lemma decimal_no_LF: "CHR 0x0A \<notin> set (decimal n)"
  using decimal_digits [of n] is_digit_not by (auto simp: list_all_iff)

lemma skip_spaces_decimal: "skip_spaces (decimal n @ s) = decimal n @ s"
proof -
  obtain d ds where "decimal n = d # ds" and "is_digit d"
    using decimal_Cons by blast
  then show ?thesis
    using skip_spaces_id [of "d # ds @ s"] space_width_digit [of d "ds @ s"] by simp
qed

lemma SkipSpace_decimal: "SkipSpace (decimal n @ s) = Some (decimal n @ s)"
proof -
  obtain d ds where d: "decimal n = d # ds" "is_digit d"
    using decimal_Cons by blast
  then have "d \<noteq> CHR 0x0A" using is_digit_not by blast
  with d show ?thesis
    using skip_spaces_decimal [of n s] by (simp add: SkipSpace_def)
qed

lemma takeWhile_decimal:
  "\<not> is_digit c \<Longrightarrow> takeWhile is_digit (decimal n @ c # s) = decimal n"
  using decimal_digits [of n]
  by (subst takeWhile_append2) (auto simp: list_all_iff)

lemma dropWhile_decimal:
  "\<not> is_digit c \<Longrightarrow> dropWhile is_digit (decimal n @ c # s) = c # s"
  using decimal_digits [of n]
  by (subst dropWhile_append2) (auto simp: list_all_iff)

lemma scanUint_decimal:
  "n < 2 ^ 64 \<Longrightarrow> \<not> is_digit c \<Longrightarrow>
   scanUint (decimal n @ c # s) = Some (word_of_nat n, c # s)"
  by (simp add: scanUint_def SkipSpace_decimal takeWhile_decimal dropWhile_decimal
      ParseUint_decimal)

lemma scanUint_utoa:
  "\<not> is_digit c \<Longrightarrow> scanUint (utoa v @ c # s) = Some (v, c # s)"
proof -
  assume c: "\<not> is_digit c"
  have "unat v < 2 ^ 64" using unsigned_less [of v] by simp
  from scanUint_decimal [OF this c] show ?thesis by (simp add: utoa_def)
qed

lemma ParseInt_itoa:
  assumes "- (2 ^ 63) \<le> i" and "i < 2 ^ 63"
  shows "ParseInt (itoa i) = Some i"
proof (cases "i < 0")
  case True
  with assms have "nat (- i) < 2 ^ 64" "nat (- i) \<le> 2 ^ 63" by auto
  with True show ?thesis
    by (simp add: ParseInt_def itoa_def ParseUint_decimal)
next
  case False
  obtain d ds where d: "decimal (nat i) = d # ds" "is_digit d"
    using decimal_Cons by blast
  then have nd: "d \<noteq> CHR ''-''" "d \<noteq> CHR ''+''" using is_digit_not by blast+
  from False assms have "nat i < 2 ^ 64" "nat i < 2 ^ 63" by auto
  then have "ParseUint (d # ds) = Some (nat i)"
    using ParseUint_decimal [of "nat i"] d by simp
  with False d nd \<open>nat i < 2 ^ 63\<close> show ?thesis
    by (simp add: ParseInt_def itoa_def)
qed

lemma scanInt_itoa:
  assumes "- (2 ^ 63) \<le> i" and "i < 2 ^ 63" and c: "\<not> is_digit c"
  shows "scanInt (itoa i @ c # s) = Some (i, c # s)"
proof (cases "i < 0")
  case True
  have "SkipSpace (CHR ''-'' # decimal (nat (- i)) @ c # s) =
          Some (CHR ''-'' # decimal (nat (- i)) @ c # s)"
    by (simp add: SkipSpace_def skip_spaces_id)
  moreover have "ParseInt (CHR ''-'' # decimal (nat (- i))) = Some i"
    using ParseInt_itoa [OF assms(1,2)] True by (simp add: itoa_def)
  ultimately show ?thesis using True c
    by (simp add: scanInt_def itoa_def takeWhile_decimal dropWhile_decimal decimal_not_Nil)
next
  case False
  obtain d ds where d: "decimal (nat i) = d # ds" "is_digit d"
    using decimal_Cons by blast
  then have nd: "d \<noteq> CHR ''-''" "d \<noteq> CHR ''+''" using is_digit_not by blast+
  have sk: "SkipSpace (d # ds @ c # s) = Some (d # ds @ c # s)"
    using SkipSpace_decimal [of "nat i" "c # s"] d by simp
  have tw: "takeWhile is_digit (d # ds @ c # s) = d # ds"
    using takeWhile_decimal [OF c, of "nat i" s] d by simp
  have dw: "dropWhile is_digit (d # ds @ c # s) = c # s"
    using dropWhile_decimal [OF c, of "nat i" s] d by simp
  have "ParseInt (d # ds) = Some i"
    using ParseInt_itoa [OF assms(1,2)] False d by (simp add: itoa_def)
  with False d nd sk tw dw show ?thesis
    by (simp add: scanInt_def itoa_def del: takeWhile.simps dropWhile.simps)
qed

lemma not_is_digit [simp]: "\<not> is_digit (CHR 0x0D)" "\<not> is_digit (CHR '' '')"
  by (simp_all add: is_digit_def)

lemma fmt_newline_CRLF: "fmt_newline CRLF = Some []"
  by (simp add: fmt_newline_def skip_spaces_CR skip_spaces_LF)

lemma fmt_space_decimal: "fmt_space (CHR '' '' # decimal n @ s) = Some (decimal n @ s)"
  by (simp add: fmt_space_def skip_spaces_SP skip_spaces_decimal)

lemma fmt_space_itoa: "fmt_space (CHR '' '' # itoa i @ s) = Some (itoa i @ s)"
  by (simp add: fmt_space_def skip_spaces_SP skip_spaces_decimal itoa_def skip_spaces_id)

lemma fmt_space_utoa: "fmt_space (CHR '' '' # utoa v @ s) = Some (utoa v @ s)"
  by (simp add: utoa_def fmt_space_decimal)

lemma Sscanf_uint_line:
  "Sscanf_uint (lit @ '' '' @ utoa v @ CRLF) lit = (v, None)"
  by (simp add: Sscanf_uint_def fmt_literal_def fmt_space_utoa scanUint_utoa fmt_newline_CRLF)

lemma Sscanf_RESERVED_line:
  assumes "- (2 ^ 63) \<le> l" and "l < 2 ^ 63"
  shows "Sscanf_RESERVED (''RESERVED '' @ utoa v @ '' '' @ itoa l @ CRLF) = (v, l, None)"
  using scanInt_itoa [OF assms, of "CHR 0x0D" "[CHR 0x0A]"]
  by (simp add: Sscanf_RESERVED_def fmt_literal_def fmt_space_utoa scanUint_utoa
      fmt_space_itoa fmt_newline_CRLF)

lemma ReadString_line:
  assumes "CHR 0x0A \<notin> set l" and "rx b = l @ CHR 0x0A # rest"
  shows "ReadString b = ((l @ [CHR 0x0A], None), b\<lparr>rx := rest\<rparr>)"
proof -
  from assms(1) have "takeWhile (\<lambda>ch. ch \<noteq> CHR 0x0A) (l @ CHR 0x0A # rest) = l"
    by (subst takeWhile_append2) auto
  moreover from assms(1)
  have "dropWhile (\<lambda>ch. ch \<noteq> CHR 0x0A) (l @ CHR 0x0A # rest) = CHR 0x0A # rest"
    by (subst dropWhile_append2) auto
  ultimately show ?thesis using assms(2) by (simp add: ReadString_def)
qed

lemma utoa_no_LF: "CHR 0x0A \<notin> set (utoa v)"
  by (simp add: utoa_def decimal_no_LF)

lemma itoa_no_LF: "CHR 0x0A \<notin> set (itoa i)"
  by (simp add: itoa_def decimal_no_LF)

section \<open>Facts about sending a command\<close>

lemma ReadString_frame:
  assumes "ReadString b = (r, b')"
  shows "sent b' = sent b \<and> conn b' = conn b \<and> writes b' = writes b \<and>
     close_result b' = close_result b \<and> closed b' = closed b \<and> warnings b' = warnings b"
proof (cases "dropWhile (\<lambda>ch. ch \<noteq> CHR 0x0A) (rx b)")
  case Nil
  with assms have "b' = b\<lparr>rx := []\<rparr>" by (simp add: ReadString_def)
  then show ?thesis by simp
next
  case (Cons nl rest)
  with assms have "b' = b\<lparr>rx := rest\<rparr>" by (simp add: ReadString_def)
  then show ?thesis by simp
qed

lemma sendCommand_cases:
  "sendCommand b cmd =
     (case sendAll b cmd of
        None \<Rightarrow> None
      | Some x \<Rightarrow>
          (case snd (fst x) of
             Some err \<Rightarrow> Some (([], Some err), snd x)
           | None \<Rightarrow>
               (case snd (fst (ReadString (snd x))) of
                  Some err \<Rightarrow> Some (([], Some err), snd (ReadString (snd x)))
                | None \<Rightarrow> Some ((fst (fst (ReadString (snd x))), None), snd (ReadString (snd x))))))"
  unfolding sendCommand_def
  by (simp add: case_prod_beta split: option.split)


lemma sendCommand_result:
  assumes "sendAll b cmd = Some ((n, None), b1)" and "ReadString b1 = ((resp, None), b2)"
  shows "sendCommand b cmd = Some ((resp, None), b2)"
  by (simp add: sendCommand_cases assms)

lemma sendCommand_ok_D:
  assumes "sendCommand b cmd = Some ((resp, None), b2)"
  shows "\<exists>n b1. sendAll b cmd = Some ((n, None), b1) \<and> ReadString b1 = ((resp, None), b2)"
proof (cases "sendAll b cmd")
  case None
  with assms show ?thesis by (simp add: sendCommand_cases)
next
  case (Some x)
  show ?thesis
  proof (cases "snd (fst x)")
    case (Some err)
    with assms \<open>sendAll b cmd = Some x\<close> show ?thesis by (simp add: sendCommand_cases)
  next
    case None
    note wr = this
    show ?thesis
    proof (cases "snd (fst (ReadString (snd x)))")
      case (Some err)
      with assms wr \<open>sendAll b cmd = Some x\<close> show ?thesis by (simp add: sendCommand_cases)
    next
      case None
      with assms wr \<open>sendAll b cmd = Some x\<close>
      have "fst (fst (ReadString (snd x))) = resp" and "snd (ReadString (snd x)) = b2"
        by (simp_all add: sendCommand_cases)
      with None have "ReadString (snd x) = ((resp, None), b2)"
        by (metis prod.collapse)
      moreover from wr have "x = ((fst (fst x), None), snd x)"
        by (metis prod.collapse)
      ultimately show ?thesis using \<open>sendAll b cmd = Some x\<close> by metis
    qed
  qed
qed

lemma sendCommand_ok_iff:
  "(sendCommand b cmd = Some ((resp, None), b2)) =
   (\<exists>n b1. sendAll b cmd = Some ((n, None), b1) \<and> ReadString b1 = ((resp, None), b2))"
  using sendCommand_ok_D sendCommand_result by blast

lemma sendCommandAndCheck_cases:
  "sendCommandAndCheck b cmd expected =
     (case sendCommand b cmd of
        None \<Rightarrow> None
      | Some x \<Rightarrow>
          (case snd (fst x) of
             Some err \<Rightarrow> Some (Some err, snd x)
           | None \<Rightarrow>
               if fst (fst x) \<noteq> expected then Some (Some (parseBeanstalkError (fst (fst x))), snd x)
               else Some (None, snd x)))"
  unfolding sendCommandAndCheck_def
  by (simp add: case_prod_beta split: option.split)

lemma sendCommandAndCheck_result:
  assumes "sendAll b cmd = Some ((n, None), b1)" and "ReadString b1 = ((resp, None), b2)"
  shows "sendCommandAndCheck b cmd expected =
           Some ((if resp = expected then None else Some (parseBeanstalkError resp)), b2)"
  using sendCommand_result [OF assms] by (simp add: sendCommandAndCheck_cases)

lemma sendCommandAndCheck_success_D:
  assumes "sendCommandAndCheck b cmd expected = Some (None, b2)"
  shows "sendCommand b cmd = Some ((expected, None), b2)"
proof (cases "sendCommand b cmd")
  case None
  with assms show ?thesis by (simp add: sendCommandAndCheck_cases)
next
  case (Some x)
  show ?thesis
  proof (cases "snd (fst x)")
    case (Some err)
    with assms \<open>sendCommand b cmd = Some x\<close> show ?thesis
      by (simp add: sendCommandAndCheck_cases)
  next
    case None
    with assms \<open>sendCommand b cmd = Some x\<close>
    have "fst (fst x) = expected \<and> snd x = b2"
      by (simp add: sendCommandAndCheck_cases split: if_splits)
    with None have "x = ((expected, None), b2)" by (metis prod.collapse)
    with \<open>sendCommand b cmd = Some x\<close> show ?thesis by simp
  qed
qed

lemma sendCommandAndCheck_success_iff:
  "(sendCommandAndCheck b cmd expected = Some (None, b2)) =
   (\<exists>n b1. sendAll b cmd = Some ((n, None), b1) \<and> ReadString b1 = ((expected, None), b2))"
proof
  assume "sendCommandAndCheck b cmd expected = Some (None, b2)"
  then have "sendCommand b cmd = Some ((expected, None), b2)"
    by (rule sendCommandAndCheck_success_D)
  then show "\<exists>n b1. sendAll b cmd = Some ((n, None), b1) \<and>
      ReadString b1 = ((expected, None), b2)"
    by (rule sendCommand_ok_D)
next
  assume "\<exists>n b1. sendAll b cmd = Some ((n, None), b1) \<and> ReadString b1 = ((expected, None), b2)"
  then obtain n b1 where "sendAll b cmd = Some ((n, None), b1)"
    and "ReadString b1 = ((expected, None), b2)" by blast
  from sendCommandAndCheck_result [OF this, of expected]
  show "sendCommandAndCheck b cmd expected = Some (None, b2)" by simp
qed

lemma call_sendCommandAndCheck:
  "call b opn = sendCommandAndCheck b (documented_command opn) (documented_reply opn)"
proof (cases opn)
  case (UseOp T)
  then show ?thesis by (simp add: Use_def)
next
  case (DeleteOp jid)
  then show ?thesis by (simp add: Delete_def)
next
  case (BuryOp jid)
  then show ?thesis by (simp add: Bury_def utoa_defaultPriority)
next
  case (ReleaseOp jid)
  then show ?thesis by (simp add: Release_def utoa_defaultPriority itoa_0)
next
  case (KickJobOp jid)
  then show ?thesis by (simp add: KickJob_def)
qed

lemma client_send:
  assumes "length d \<le> k" and "d \<noteq> []"
  shows "sendAll (client (script (WOut k None # outs) final) input) d =
           Some ((length d, None), (client (script outs final) input)\<lparr>sent := d\<rparr>)"
  using sendAll_one_write [of "client (script (WOut k None # outs) final) input" k d] assms
  by (simp add: client_def)

lemma client_ReadString:
  assumes "CHR 0x0A \<notin> set l"
  shows "ReadString ((client ws (l @ CHR 0x0A # rest))\<lparr>sent := d\<rparr>) =
           ((l @ [CHR 0x0A], None), (client ws rest)\<lparr>sent := d\<rparr>)"
  using ReadString_line [of l "(client ws (l @ CHR 0x0A # rest))\<lparr>sent := d\<rparr>" rest] assms
  by (simp add: client_def)

lemma Put_result:
  assumes "sendCommand b (''put 2147483648 0 120 '' @ itoa (int (length P)) @ CRLF @ P @ CRLF) =
             Some ((resp, None), b2)"
  shows "Put b P =
     (if prefix ''IN'' resp then Some (Sscanf_uint resp ''INSERTED'', b2)
      else if prefix ''BU'' resp then Some ((fst (Sscanf_uint resp ''BURIED''), Some errBuried), b2)
      else Some ((0, Some (parseBeanstalkError resp)), b2))"
  using assms
  by (simp add: Put_def utoa_defaultPriority utoa_defaultTTR case_prod_beta)

section \<open>Facts about reading a payload\<close>

lemma int_wrap_id: "- (2 ^ 63) \<le> x \<Longrightarrow> x < 2 ^ 63 \<Longrightarrow> int_wrap x = x"
  by (simp add: int_wrap_def sint_sbintrunc' signed_take_bit_int_eq_self)

lemma readData_positional:
  assumes "0 \<le> len" and "len + 2 \<le> maxAlloc" and "len + 2 \<le> int (length (rx b))"
  shows "readData b len =
           (Returned (take (nat len) (rx b), None), b\<lparr>rx := drop (nat len + 2) (rx b)\<rparr>)"
proof -
  from assms have w: "int_wrap (len + 2) = len + 2"
    by (intro int_wrap_id) (simp_all add: maxAlloc_def)
  from assms have n: "nat (len + 2) = nat len + 2" by simp
  from assms have le: "nat len + 2 \<le> length (rx b)" by simp
  then have rf: "ReadFull b (nat len + 2) =
      ((take (nat len + 2) (rx b), None), b\<lparr>rx := drop (nat len + 2) (rx b)\<rparr>)"
    by (simp add: ReadFull_def)
  from le have "length (take (nat len + 2) (rx b)) = nat len + 2" by simp
  with assms(1,2) w n rf show ?thesis
    by (simp add: readData_def min_def)
qed

lemma readData_payload:
  assumes "int (length P) + 2 \<le> maxAlloc" and "rx b = P @ [t1, t2] @ rest"
  shows "readData b (int (length P)) = (Returned (P, None), b\<lparr>rx := rest\<rparr>)"
proof -
  from assms(2) have "int (length P) + 2 \<le> int (length (rx b))" by simp
  with assms(1) have "readData b (int (length P)) =
      (Returned (take (nat (int (length P))) (rx b), None),
       b\<lparr>rx := drop (nat (int (length P)) + 2) (rx b)\<rparr>)"
    by (intro readData_positional) simp_all
  with assms(2) show ?thesis by simp
qed

lemma length_long_stream: "int (length long_stream) = 2 ^ 48 + 1"
  by (simp only: long_stream_def length_replicate) simp

lemma int_wrap_high:
  assumes "2 ^ 63 \<le> x" and "x < 2 ^ 64"
  shows "int_wrap x = x - 2 ^ 64"
proof -
  have "int_wrap x = take_bit 64 (x + 2 ^ 63) - 2 ^ 63"
    by (simp add: int_wrap_def sint_sbintrunc' signed_take_bit_eq_take_bit_shift)
  also have "take_bit 64 (x + 2 ^ 63) = (x + 2 ^ 63) mod 2 ^ 64"
    by (simp add: take_bit_eq_mod)
  also have "(x + 2 ^ 63) mod 2 ^ 64 = (x + 2 ^ 63 - 2 ^ 64) mod 2 ^ 64"
    by (metis minus_mod_self2)
  also from assms have "\<dots> = x + 2 ^ 63 - 2 ^ 64"
    by (intro mod_pos_pos_trivial) simp_all
  finally show ?thesis by simp
qed

lemma readData_too_long:
  assumes "0 \<le> len" and "len < 2 ^ 63" and "maxAlloc < len + 2"
  shows "readData b len = (Panicked, b)"
proof (cases "len + 2 < 2 ^ 63")
  case True
  with assms have "int_wrap (len + 2) = len + 2" by (intro int_wrap_id) simp_all
  with assms(3) show ?thesis by (simp add: readData_def)
next
  case False
  with assms have "int_wrap (len + 2) = len + 2 - 2 ^ 64"
    by (intro int_wrap_high) simp_all
  with assms(2) have "int_wrap (len + 2) < 0" by simp
  then show ?thesis by (simp add: readData_def)
qed

lemma Put_cases:
  "Put b P =
     (case sendCommand b (''put 2147483648 0 120 '' @ itoa (int (length P)) @ CRLF @ P @ CRLF) of
        None \<Rightarrow> None
      | Some x \<Rightarrow>
          (case snd (fst x) of
             Some err \<Rightarrow> Some ((0, Some err), snd x)
           | None \<Rightarrow>
               if prefix ''IN'' (fst (fst x)) then
                 Some (Sscanf_uint (fst (fst x)) ''INSERTED'', snd x)
               else if prefix ''BU'' (fst (fst x)) then
                 Some ((fst (Sscanf_uint (fst (fst x)) ''BURIED''), Some errBuried), snd x)
               else Some ((0, Some (parseBeanstalkError (fst (fst x)))), snd x)))"
  unfolding Put_def
  by (simp add: utoa_defaultPriority utoa_defaultTTR case_prod_beta split: option.split)

lemma Put_success_sent:
  assumes "Put b P = Some ((jid, None), b')"
  shows "sent b' = sent b @ ''put 2147483648 0 120 '' @ itoa (int (length P)) @ CRLF @ P @ CRLF"
proof -
  let ?cmd = "''put 2147483648 0 120 '' @ itoa (int (length P)) @ CRLF @ P @ CRLF"
  from assms obtain x where x: "sendCommand b ?cmd = Some x"
    by (cases "sendCommand b ?cmd") (simp_all add: Put_cases)
  with assms have ok: "snd (fst x) = None" and st: "snd x = b'"
    by (auto simp: Put_cases split: option.splits if_splits)
  then have "x = ((fst (fst x), None), b')" by (metis prod.collapse)
  with x have "sendCommand b ?cmd = Some ((fst (fst x), None), b')" by simp
  then obtain n b1 where s: "sendAll b ?cmd = Some ((n, None), b1)"
    and r: "ReadString b1 = ((fst (fst x), None), b')"
    using sendCommand_ok_D by blast
  from sendAll_success [OF s] ReadString_frame [OF r] show ?thesis by simp
qed

lemma Reserve_result:
  assumes "sendCommand b (''reserve'' @ CRLF) = Some ((resp, None), b1)"
    and "prefix ''RESERVED'' resp" and "Sscanf_RESERVED resp = (jid, len, None)"
  shows "Reserve b =
     (case readData b1 len of
        (Panicked, b2) \<Rightarrow> Some (Panicked, b2)
      | (Returned (data, err), b2) \<Rightarrow> Some (Returned (Some \<lparr>ID = jid, Data = data\<rparr>, err), b2))"
  using assms by (simp add: Reserve_def)

lemma Reserve_header:
  assumes s: "sendAll b (''reserve'' @ CRLF) = Some ((n, None), b1)"
    and rx: "rx b = ''RESERVED '' @ utoa jid @ '' '' @ itoa len @ CRLF @ rest"
    and len: "- (2 ^ 63) \<le> len" "len < 2 ^ 63"
  shows "Reserve b =
     (case readData (b1\<lparr>rx := rest\<rparr>) len of
        (Panicked, b2) \<Rightarrow> Some (Panicked, b2)
      | (Returned (data, err), b2) \<Rightarrow> Some (Returned (Some \<lparr>ID = jid, Data = data\<rparr>, err), b2))"
proof -
  let ?l = "''RESERVED '' @ utoa jid @ '' '' @ itoa len @ [CHR 0x0D]"
  have "CHR 0x0A \<notin> set ?l" by (simp add: utoa_no_LF itoa_no_LF)
  moreover from sendAll_frame [OF s] rx have "rx b1 = ?l @ CHR 0x0A # rest" by simp
  ultimately have "ReadString b1 = ((?l @ [CHR 0x0A], None), b1\<lparr>rx := rest\<rparr>)"
    by (rule ReadString_line)
  then have r: "ReadString b1 =
      ((''RESERVED '' @ utoa jid @ '' '' @ itoa len @ CRLF, None), b1\<lparr>rx := rest\<rparr>)"
    by simp
  have p: "prefix ''RESERVED'' (''RESERVED '' @ utoa jid @ '' '' @ itoa len @ CRLF)" by simp
  from Reserve_result [OF sendCommand_result [OF s r] p Sscanf_RESERVED_line [OF len]]
  show ?thesis .
qed

lemma reserve_send:
  "sendAll (client (script [WOut 100 None] (WOut 0 None)) input) (''reserve'' @ CRLF) =
     Some ((length (''reserve'' @ CRLF), None),
           (client (script [] (WOut 0 None)) input)\<lparr>sent := ''reserve'' @ CRLF\<rparr>)"
  using client_send [of "''reserve'' @ CRLF" 100 "[]" "WOut 0 None" input] by simp

lemma small_decimals:
  "utoa 1 = ''1''" "utoa 5 = ''5''" "utoa 42 = ''42''" "itoa 3 = ''3''" "itoa 5 = ''5''"
  "itoa (- 1) = ''-1''" "itoa (- 5) = ''-5''"
  by (simp_all add: utoa_def itoa_def decimal.simps digit_char_def)

lemma Reserve_too_long:
  assumes s: "sendAll b (''reserve'' @ CRLF) = Some ((n, None), b1)"
    and len: "0 \<le> len" "len < 2 ^ 63" "maxAlloc < len + 2"
    and rx: "rx b = ''RESERVED '' @ utoa jid @ '' '' @ itoa len @ CRLF @ stream"
  shows "Reserve b = Some (Panicked, b1\<lparr>rx := stream\<rparr>)"
proof -
  from len have range: "- (2 ^ 63) \<le> len" "len < 2 ^ 63" by simp_all
  from Reserve_header [OF s rx range] readData_too_long [OF len, of "b1\<lparr>rx := stream\<rparr>"]
  show ?thesis by simp
qed

lemma Reserve_negative:
  "sendAll b (''reserve'' @ CRLF) = Some ((n, None), b1) \<longrightarrow>
   - (2 ^ 63) \<le> len \<longrightarrow> len < 0 \<longrightarrow>
   rx b = ''RESERVED '' @ utoa jid @ '' '' @ itoa len @ CRLF @ rest \<longrightarrow>
   Reserve b =
     (if len = - 1 \<and> rest = [] then
        Some (Returned (Some \<lparr>ID = jid, Data = []\<rparr>, Some errEOF), b1\<lparr>rx := []\<rparr>)
      else if len = - 1 then Some (Panicked, b1\<lparr>rx := tl rest\<rparr>)
      else Some (Panicked, b1\<lparr>rx := rest\<rparr>))"
proof (intro impI)
  assume s: "sendAll b (''reserve'' @ CRLF) = Some ((n, None), b1)"
    and len: "- (2 ^ 63) \<le> len" "len < 0"
    and rx: "rx b = ''RESERVED '' @ utoa jid @ '' '' @ itoa len @ CRLF @ rest"
  from len have range: "- (2 ^ 63) \<le> len" "len < 2 ^ 63" by simp_all
  from len have w: "int_wrap (len + 2) = len + 2" by (intro int_wrap_id) simp_all
  have w1: "int_wrap 1 = 1" and w0: "int_wrap 0 = 0"
    by (simp_all add: int_wrap_id)
  let ?b = "b1\<lparr>rx := rest\<rparr>"
  have rd: "readData ?b len =
     (if len = - 1 \<and> rest = [] then (Returned ([], Some errEOF), ?b)
      else if len = - 1 then (Panicked, b1\<lparr>rx := tl rest\<rparr>)
      else (Panicked, ?b))"
  proof (cases "len = - 1")
    case True
    then show ?thesis
      by (cases rest) (simp_all add: readData_def w1 ReadFull_def maxAlloc_def)
  next
    case False
    show ?thesis
    proof (cases "len = - 2")
      case True
      then show ?thesis by (simp add: readData_def w0 ReadFull_def maxAlloc_def)
    next
      case False
      with \<open>len \<noteq> - 1\<close> len have "len + 2 < 0" by simp
      with \<open>len \<noteq> - 1\<close> show ?thesis by (simp add: readData_def w)
    qed
  qed
  from Reserve_header [OF s rx range] rd
  show "Reserve b =
     (if len = - 1 \<and> rest = [] then
        Some (Returned (Some \<lparr>ID = jid, Data = []\<rparr>, Some errEOF), b1\<lparr>rx := []\<rparr>)
      else if len = - 1 then Some (Panicked, b1\<lparr>rx := tl rest\<rparr>)
      else Some (Panicked, b1\<lparr>rx := rest\<rparr>))"
    by (simp split: if_splits)
qed

lemma Put_INSERTED_reply:
  assumes s: "sendAll b (''put 2147483648 0 120 '' @ itoa (int (length P)) @ CRLF @ P @ CRLF) =
                Some ((n, None), b1)"
    and r: "rx b = ''INSERTED '' @ utoa jid @ CRLF @ rest"
  shows "Put b P = Some ((jid, None), b1\<lparr>rx := rest\<rparr>)"
proof -
  have "CHR 0x0A \<notin> set (''INSERTED '' @ utoa jid @ [CHR 0x0D])"
    by (simp add: utoa_no_LF)
  moreover from sendAll_frame [OF s] r
  have "rx b1 = (''INSERTED '' @ utoa jid @ [CHR 0x0D]) @ CHR 0x0A # rest" by simp
  ultimately have "ReadString b1 =
      (((''INSERTED '' @ utoa jid @ [CHR 0x0D]) @ [CHR 0x0A], None), b1\<lparr>rx := rest\<rparr>)"
    by (rule ReadString_line)
  then have "ReadString b1 = ((''INSERTED '' @ utoa jid @ CRLF, None), b1\<lparr>rx := rest\<rparr>)"
    by simp
  from Put_result [OF sendCommand_result [OF s this]]
    Sscanf_uint_line [of "''INSERTED''" jid]
  show ?thesis by simp
qed

lemma Put_BURIED_reply:
  assumes s: "sendAll b (''put 2147483648 0 120 '' @ itoa (int (length P)) @ CRLF @ P @ CRLF) =
                Some ((n, None), b1)"
    and r: "rx b = ''BURIED '' @ utoa jid @ CRLF @ rest"
  shows "Put b P = Some ((jid, Some errBuried), b1\<lparr>rx := rest\<rparr>)"
proof -
  have "CHR 0x0A \<notin> set (''BURIED '' @ utoa jid @ [CHR 0x0D])"
    by (simp add: utoa_no_LF)
  moreover from sendAll_frame [OF s] r
  have "rx b1 = (''BURIED '' @ utoa jid @ [CHR 0x0D]) @ CHR 0x0A # rest" by simp
  ultimately have "ReadString b1 =
      (((''BURIED '' @ utoa jid @ [CHR 0x0D]) @ [CHR 0x0A], None), b1\<lparr>rx := rest\<rparr>)"
    by (rule ReadString_line)
  then have "ReadString b1 = ((''BURIED '' @ utoa jid @ CRLF, None), b1\<lparr>rx := rest\<rparr>)"
    by simp
  from Put_result [OF sendCommand_result [OF s this]]
    Sscanf_uint_line [of "''BURIED''" jid]
  show ?thesis by simp
qed

lemma Put_hello:
  "Put (client (script [WOut 100 None] (WOut 0 None)) (''INSERTED 42'' @ CRLF)) ''hello'' =
     Some ((42, None),
           (client (script [] (WOut 0 None)) [])
             \<lparr>sent := ''put 2147483648 0 120 5'' @ CRLF @ ''hello'' @ CRLF\<rparr>)"
proof -
  let ?ws = "script [WOut 100 None] (WOut 0 None)"
  let ?ws' = "script [] (WOut 0 None)"
  let ?cmd = "''put 2147483648 0 120 5'' @ CRLF @ ''hello'' @ CRLF"
  have i5: "itoa (int (length ''hello'')) = ''5''"
    by (simp add: small_decimals)
  have s: "sendAll (client ?ws (''INSERTED 42'' @ CRLF))
             (''put 2147483648 0 120 '' @ itoa (int (length ''hello'')) @ CRLF @ ''hello'' @ CRLF) =
      Some ((length ?cmd, None), (client ?ws' (''INSERTED 42'' @ CRLF))\<lparr>sent := ?cmd\<rparr>)"
    unfolding i5
    using client_send [of ?cmd 100 "[]" "WOut 0 None" "''INSERTED 42'' @ CRLF"] by simp
  have r: "rx (client ?ws (''INSERTED 42'' @ CRLF)) = ''INSERTED '' @ utoa 42 @ CRLF @ []"
    by (simp add: small_decimals client_def)
  from Put_INSERTED_reply [OF s r] show ?thesis by (simp add: client_def)
qed

section \<open>Facts about the responses of the operations\<close>

lemma Watch_result:
  assumes "sendCommand b (''watch '' @ T @ CRLF) = Some ((resp, None), b2)"
  shows "Watch b T =
     Some ((if snd (Sscanf_int resp ''WATCHING'') = None then None
            else Some (parseBeanstalkError resp)), b2)"
  using assms by (simp add: Watch_def case_prod_beta split: option.split)

lemma Kick_result:
  assumes "sendCommand b (''kick '' @ utoa bound @ CRLF) = Some ((resp, None), b2)"
  shows "Kick b bound =
     (if prefix ''KICKED'' resp then Some (Sscanf_uint resp ''KICKED'', b2)
      else Some ((0, Some (parseBeanstalkError resp)), b2))"
  using assms by (simp add: Kick_def case_prod_beta)

lemma Reserve_result_other:
  assumes "sendCommand b (''reserve'' @ CRLF) = Some ((resp, None), b2)"
    and "\<not> prefix ''RESERVED'' resp"
  shows "Reserve b = Some (Returned (None, Some (parseBeanstalkError resp)), b2)"
  using assms by (simp add: Reserve_def)

lemma Reserve_result_scan_error:
  assumes "sendCommand b (''reserve'' @ CRLF) = Some ((resp, None), b2)"
    and "prefix ''RESERVED'' resp" and "snd (snd (Sscanf_RESERVED resp)) = Some e"
  shows "Reserve b = Some (Returned (None, Some e), b2)"
  using assms by (simp add: Reserve_def case_prod_beta)

lemma call_result:
  assumes "sendCommand b (documented_command l) = Some ((resp, None), b2)"
  shows "call b l =
     Some ((if resp = documented_reply l then None else Some (parseBeanstalkError resp)), b2)"
  using assms by (simp add: call_sendCommandAndCheck sendCommandAndCheck_cases)

lemma classified_error:
  assumes s: "sendCommand b (documented_request opn) = Some ((resp, None), b2)"
    and c: "classified opn resp"
  shows "op_error b opn = Some (Returned (Some (parseBeanstalkError resp), b2))"
proof (cases opn)
  case (WatchOp T)
  with s c show ?thesis using Watch_result [of b T resp b2] by simp
next
  case (PutOp P)
  with s c show ?thesis using Put_result [of b P resp b2] by simp
next
  case ReserveOp
  with s c show ?thesis using Reserve_result_other [of b resp b2] by simp
next
  case (KickOp bound)
  with s c show ?thesis using Kick_result [of b bound resp b2] by simp
next
  case (LiteralOp l)
  with s c show ?thesis using call_result [of b l resp b2] by simp
qed

lemma error_lines_cases:
  assumes "resp \<in> set error_lines"
  shows "resp = ''OUT_OF_MEMORY'' @ CRLF \<or> resp = ''INTERNAL_ERROR'' @ CRLF \<or>
     resp = ''BAD_FORMAT'' @ CRLF \<or> resp = ''UNKNOWN_COMMAND'' @ CRLF \<or>
     resp = ''BURIED'' @ CRLF \<or> resp = ''EXPECTED_CRLF'' @ CRLF \<or>
     resp = ''JOB_TOO_BIG'' @ CRLF \<or> resp = ''DRAINING'' @ CRLF \<or>
     resp = ''DEADLINE_SOON'' @ CRLF \<or> resp = ''TIMED_OUT'' @ CRLF \<or>
     resp = ''NOT_FOUND'' @ CRLF"
  using assms by (simp add: error_lines_def)

lemma error_line_Watch:
  "resp \<in> set error_lines \<Longrightarrow> classified (WatchOp T) resp"
  by (drule error_lines_cases) (elim disjE; simp add: Sscanf_int_def fmt_literal_def)

lemma error_line_Reserve:
  "resp \<in> set error_lines \<Longrightarrow> classified ReserveOp resp"
  by (drule error_lines_cases) (elim disjE; simp)

lemma error_line_Kick:
  "resp \<in> set error_lines \<Longrightarrow> classified (KickOp bound) resp"
  by (drule error_lines_cases) (elim disjE; simp)

lemma error_line_Put:
  "resp \<in> set error_lines \<Longrightarrow> resp \<noteq> ''INTERNAL_ERROR'' @ CRLF \<Longrightarrow>
   resp \<noteq> ''BURIED'' @ CRLF \<Longrightarrow> classified (PutOp P) resp"
  by (drule error_lines_cases) (elim disjE; simp)

lemma error_line_Literal:
  "resp \<in> set error_lines \<Longrightarrow> \<not> set_aside (LiteralOp l) resp \<Longrightarrow>
   classified (LiteralOp l) resp"
  by (drule error_lines_cases) (cases l; elim disjE; simp)

lemma Put_BURIED_line:
  assumes "sendCommand b (documented_request (PutOp P)) = Some ((''BURIED'' @ CRLF, None), b2)"
  shows "op_error b (PutOp P) =
           Some (Returned (Some (parseBeanstalkError (''BURIED'' @ CRLF)), b2))"
  using Put_result [of b P "''BURIED'' @ CRLF" b2] assms
  by (simp add: parseBeanstalkError_def errorTable_def)

lemma error_line_error:
  assumes s: "sendCommand b (documented_request opn) = Some ((resp, None), b2)"
    and t: "resp \<in> set error_lines" and n: "\<not> set_aside opn resp"
  shows "op_error b opn = Some (Returned (Some (parseBeanstalkError resp), b2))"
proof (cases opn)
  case (WatchOp T)
  with error_line_Watch [OF t] classified_error [OF s] show ?thesis by simp
next
  case (PutOp P)
  show ?thesis
  proof (cases "resp = ''BURIED'' @ CRLF")
    case True
    with s PutOp show ?thesis using Put_BURIED_line [of b P b2] by simp
  next
    case False
    with n PutOp t have "classified (PutOp P) resp" by (intro error_line_Put) simp_all
    with PutOp classified_error [OF s] show ?thesis by simp
  qed
next
  case ReserveOp
  with error_line_Reserve [OF t] classified_error [OF s] show ?thesis by simp
next
  case (KickOp bound)
  with error_line_Kick [OF t] classified_error [OF s] show ?thesis by simp
next
  case (LiteralOp l)
  with n have "\<not> set_aside (LiteralOp l) resp" by simp
  from error_line_Literal [OF t this] LiteralOp classified_error [OF s] show ?thesis by simp
qed

lemma client_sendCommand:
  assumes "length d \<le> k" and "d \<noteq> []" and "CHR 0x0A \<notin> set l"
  shows "sendCommand (client (script (WOut k None # outs) final) (l @ CHR 0x0A # rest)) d =
           Some ((l @ [CHR 0x0A], None), (client (script outs final) rest)\<lparr>sent := d\<rparr>)"
  by (rule sendCommand_result [OF client_send [OF assms(1,2)] client_ReadString [OF assms(3)]])

lemma Put_INTERNAL_ERROR:
  "Put (client (script [WOut 100 None] (WOut 0 None)) (''INTERNAL_ERROR'' @ CRLF)) ''job'' =
     Some ((0, Some errScan),
           (client (script [] (WOut 0 None)) [])
             \<lparr>sent := ''put 2147483648 0 120 3'' @ CRLF @ ''job'' @ CRLF\<rparr>)"
proof -
  have "sendCommand (client (script [WOut 100 None] (WOut 0 None))
                      ((''INTERNAL_ERROR'' @ [CHR 0x0D]) @ CHR 0x0A # []))
          (''put 2147483648 0 120 3'' @ CRLF @ ''job'' @ CRLF) =
        Some (((''INTERNAL_ERROR'' @ [CHR 0x0D]) @ [CHR 0x0A], None),
              (client (script [] (WOut 0 None)) [])
                \<lparr>sent := ''put 2147483648 0 120 3'' @ CRLF @ ''job'' @ CRLF\<rparr>)"
    by (rule client_sendCommand) simp_all
  then have "sendCommand (client (script [WOut 100 None] (WOut 0 None)) (''INTERNAL_ERROR'' @ CRLF))
          (''put 2147483648 0 120 '' @ itoa (int (length ''job'')) @ CRLF @ ''job'' @ CRLF) =
        Some ((''INTERNAL_ERROR'' @ CRLF, None),
              (client (script [] (WOut 0 None)) [])
                \<lparr>sent := ''put 2147483648 0 120 3'' @ CRLF @ ''job'' @ CRLF\<rparr>)"
    by (simp add: small_decimals)
  from Put_result [OF this] show ?thesis
    by (simp add: Sscanf_uint_def fmt_literal_def)
qed

section \<open>The error classifier\<close>

text \<open>
  Claim C4. \<open>parseBeanstalkError\<close> is a function of the complete response line alone. Each
  of the eleven lines of the error table, terminator included, gives its own error value;
  every other line \<open>str\<close> (the comparison is exact, so a line in lower case or without its
  terminator is another line) gives the unknown error, whose text carries \<open>str\<close> as it is.
\<close>

theorem parseBeanstalkError_table:
  "parseBeanstalkError (''OUT_OF_MEMORY'' @ CRLF) = errOutOfMemory \<and>
   parseBeanstalkError (''INTERNAL_ERROR'' @ CRLF) = errInternalError \<and>
   parseBeanstalkError (''BAD_FORMAT'' @ CRLF) = errBadFormat \<and>
   parseBeanstalkError (''UNKNOWN_COMMAND'' @ CRLF) = errUnknownCommand \<and>
   parseBeanstalkError (''BURIED'' @ CRLF) = errBuried \<and>
   parseBeanstalkError (''EXPECTED_CRLF'' @ CRLF) = errExpectedCrlf \<and>
   parseBeanstalkError (''JOB_TOO_BIG'' @ CRLF) = errJobTooBig \<and>
   parseBeanstalkError (''DRAINING'' @ CRLF) = errDraining \<and>
   parseBeanstalkError (''DEADLINE_SOON'' @ CRLF) = errDeadlineSoon \<and>
   parseBeanstalkError (''TIMED_OUT'' @ CRLF) = errTimedOut \<and>
   parseBeanstalkError (''NOT_FOUND'' @ CRLF) = errNotFound \<and>
   (str \<notin> set error_lines \<longrightarrow>
      parseBeanstalkError str = errUnknown str \<and>
      error_text (parseBeanstalkError str) = ''unknown error: '' @ str)"
  by (simp add: parseBeanstalkError_def errorTable_def error_lines_def)

theorem parseBeanstalkError_table_witness:
  "''WEIRD'' @ CRLF \<notin> set error_lines \<and>
   parseBeanstalkError (''WEIRD'' @ CRLF) = errUnknown (''WEIRD'' @ CRLF) \<and>
   error_text (parseBeanstalkError (''WEIRD'' @ CRLF)) = ''unknown error: WEIRD'' @ CRLF \<and>
   parseBeanstalkError (''buried'' @ CRLF) = errUnknown (''buried'' @ CRLF) \<and>
   parseBeanstalkError ''BURIED'' = errUnknown ''BURIED''"
  using parseBeanstalkError_table [of "''WEIRD'' @ CRLF"]
    parseBeanstalkError_table [of "''buried'' @ CRLF"]
    parseBeanstalkError_table [of "''BURIED''"]
  by (simp add: error_lines_def)

section \<open>The write loop\<close>

lemma sendAll_no_connection:
  "\<not> conn b \<Longrightarrow> sendAll b d = Some ((0, Some errNoConnection), b)"
  by (simp add: sendAll_def)

text \<open>
  Claim C3, at the input where the code departs from it. The buffer is \<open>abcdefgh\<close>. The
  first write takes 3 bytes without error, and the loop goes on with \<open>defgh\<close>; the second
  write takes 2 bytes and fails with an error that is not temporary. \<open>sendAll\<close> returns
  that error with the count 3, while the socket has taken the 5 bytes \<open>abcde\<close>: the bytes
  of the failing write are not counted, whereas those of a write that fails with a
  temporary error are (\<open>sendAll_loop_retry\<close>). The other parts of the claim hold:
  \<open>sendAll_success\<close>, \<open>sendAll_loop_retry\<close>, \<open>sendAll_loop_abort\<close>,
  \<open>sendAll_no_connection\<close>.
\<close>

theorem sendAll_abort_count:
  "sendAll
     (client (script [WOut 3 None, WOut 2 (Some (errNet False ''broken pipe''))] (WOut 0 None)) [])
     ''abcdefgh'' =
   Some ((3, Some (errNet False ''broken pipe'')),
         (client (script [] (WOut 0 None)) [])\<lparr>sent := ''abcde''\<rparr>)"
  by (simp add: sendAll_def client_def sendAll_loop_retry [where k = 3 and err = None]
      sendAll_loop_abort [where k = 2])

section \<open>Closing the connection\<close>

text \<open>
  Claim C8, as stated, at a socket that answers every write with a temporary error and
  takes no byte: \<open>Close\<close> keeps sending the quit command and never returns.
\<close>

theorem Close_no_return:
  "Close (client (script [] (WOut 0 (Some (errNet True ''i/o timeout'')))) []) = None"
proof -
  have "sendAll_loop (client (script [] (WOut 0 (Some (errNet True ''i/o timeout'')))) [])
          (length (''quit '' @ CRLF)) (''quit '' @ CRLF) 0 = None"
    by (rule sendAll_loop_diverges) (simp_all add: client_def no_progress_def)
  then show ?thesis by (simp add: Close_def sendAll_def client_def)
qed

text \<open>
  Claim C8, amended. \<open>Close\<close> first sends \<open>quit \r\n\<close> with \<open>sendAll\<close>, whose outcome
  \<open>r\<close> it ignores, and then closes the socket, in the state \<open>b1\<close> the send has left;
  a failure of the close only adds a warning to the log. It returns whenever the send
  ends, and only then: without a connection it returns at once, having written and closed
  nothing; on a broken connection (the first write fails with an error that is not
  temporary) and on a socket that takes the 7 bytes it returns with the socket closed.
\<close>

theorem Close_returns:
  "(\<not> conn b \<longrightarrow> Close b = Some b) \<and>
   (conn b \<longrightarrow> sendAll b (''quit '' @ CRLF) = Some (r, b1) \<longrightarrow>
      Close b =
        Some (b1\<lparr>closed := True,
                 warnings := warnings b @
                   (case close_result b of
                      None \<Rightarrow> []
                    | Some err \<Rightarrow>
                        [''Failed to close the cnx to beanstalkd: '' @ error_text err])\<rparr>)) \<and>
   (conn b \<longrightarrow> writes b 0 = WOut k (Some e) \<longrightarrow> \<not> Temporary e \<longrightarrow>
      Close b =
        Some (b\<lparr>writes := (\<lambda>i. writes b (Suc i)),
                sent := sent b @ take k (''quit '' @ CRLF),
                closed := True,
                warnings := warnings b @
                  (case close_result b of
                     None \<Rightarrow> []
                   | Some err \<Rightarrow>
                       [''Failed to close the cnx to beanstalkd: '' @ error_text err])\<rparr>)) \<and>
   (conn b \<longrightarrow> writes b 0 = WOut k None \<longrightarrow> 7 \<le> k \<longrightarrow>
      Close b =
        Some (b\<lparr>writes := (\<lambda>i. writes b (Suc i)),
                sent := sent b @ ''quit '' @ CRLF,
                closed := True,
                warnings := warnings b @
                  (case close_result b of
                     None \<Rightarrow> []
                   | Some err \<Rightarrow>
                       [''Failed to close the cnx to beanstalkd: '' @ error_text err])\<rparr>)) \<and>
   ((Close b = None) = (sendAll b (''quit '' @ CRLF) = None))"
proof -
  let ?warn = "warnings b @
                   (case close_result b of
                      None \<Rightarrow> []
                    | Some err \<Rightarrow>
                        [''Failed to close the cnx to beanstalkd: '' @ error_text err])"
  have general: "Close b = Some (b1\<lparr>closed := True, warnings := ?warn\<rparr>)"
    if c: "conn b" and s: "sendAll b (''quit '' @ CRLF) = Some (r, b1)" for r b1
    using sendAll_frame [OF s] c s
    by (cases "close_result b") (simp_all add: Close_def)
  have absent: "Close b = Some b" if "\<not> conn b"
    using that by (simp add: Close_def sendAll_def)
  have broken: "Close b =
        Some (b\<lparr>writes := (\<lambda>i. writes b (Suc i)),
                sent := sent b @ take k (''quit '' @ CRLF),
                closed := True, warnings := ?warn\<rparr>)"
    if c: "conn b" and w: "writes b 0 = WOut k (Some e)" and e: "\<not> Temporary e"
  proof -
    from c w e have "sendAll b (''quit '' @ CRLF) =
        Some ((0, Some e), b\<lparr>writes := (\<lambda>i. writes b (Suc i)),
                             sent := sent b @ take k (''quit '' @ CRLF)\<rparr>)"
      by (simp add: sendAll_def sendAll_loop_abort)
    from general [OF c this] show ?thesis by simp
  qed
  have accepted: "Close b =
        Some (b\<lparr>writes := (\<lambda>i. writes b (Suc i)),
                sent := sent b @ ''quit '' @ CRLF,
                closed := True, warnings := ?warn\<rparr>)"
    if c: "conn b" and w: "writes b 0 = WOut k None" and k: "7 \<le> k"
  proof -
    from c w k have "sendAll b (''quit '' @ CRLF) =
        Some ((length (''quit '' @ CRLF), None), b\<lparr>writes := (\<lambda>i. writes b (Suc i)),
                           sent := sent b @ ''quit '' @ CRLF\<rparr>)"
      by (intro sendAll_one_write) (simp_all add: eval_nat_numeral)
    from general [OF c this] show ?thesis by simp
  qed
  have never: "(Close b = None) = (sendAll b (''quit '' @ CRLF) = None)"
    by (auto simp: Close_def split: option.splits)
  from general absent broken accepted never show ?thesis by blast
qed

theorem Close_returns_witness:
  "Close ((client (script [WOut 0 (Some (errNet False ''broken pipe''))] (WOut 0 None)) [])
            \<lparr>close_result := Some (errNet False ''use of closed network connection'')\<rparr>) =
     Some ((client (script [] (WOut 0 None)) [])
            \<lparr>close_result := Some (errNet False ''use of closed network connection''),
             closed := True,
             warnings :=
               [''Failed to close the cnx to beanstalkd: use of closed network connection'']\<rparr>) \<and>
   Close ((client (script [] (WOut 0 None)) [])\<lparr>conn := False\<rparr>) =
     Some ((client (script [] (WOut 0 None)) [])\<lparr>conn := False\<rparr>) \<and>
   Close (client (script [WOut 7 None] (WOut 0 None)) []) =
     Some ((client (script [] (WOut 0 None)) [])\<lparr>sent := ''quit '' @ CRLF, closed := True\<rparr>)"
  using
    Close_returns [of "(client (script [WOut 0 (Some (errNet False ''broken pipe''))] (WOut 0 None)) [])
            \<lparr>close_result := Some (errNet False ''use of closed network connection'')\<rparr>"
        _ _ 0 "errNet False ''broken pipe''"]
    Close_returns [of "(client (script [] (WOut 0 None)) [])\<lparr>conn := False\<rparr>"]
    Close_returns [of "client (script [WOut 7 None] (WOut 0 None)) []" _ _ 7]
  by (simp add: client_def)

section \<open>The operations with a literal response\<close>

text \<open>
  Claim C6. Each of \<open>Use\<close>, \<open>Delete\<close>, \<open>Bury\<close>, \<open>Release\<close> and \<open>KickJob\<close> sends its
  documented command, and returns without error exactly when the command has been sent
  whole and the response line read after it equals the documented literal; so \<open>Use\<close> fails
  on a response that names another tube. Once the command is sent, the socket has taken
  exactly its bytes, and any response that differs from the literal yields the error that
  \<open>parseBeanstalkError\<close> gives for it.
\<close>

theorem exact_literal_operations:
  "((call b opn = Some (None, b2)) =
      (\<exists>n b1. sendAll b (documented_command opn) = Some ((n, None), b1) \<and>
              ReadString b1 = ((documented_reply opn, None), b2))) \<and>
   (sendAll b (documented_command opn) = Some ((n, None), b1) \<longrightarrow>
      sent b1 = sent b @ documented_command opn \<and>
      (ReadString b1 = ((resp, None), b3) \<longrightarrow>
         sent b3 = sent b @ documented_command opn \<and>
         call b opn =
           Some ((if resp = documented_reply opn then None
                  else Some (parseBeanstalkError resp)), b3)))"
proof (intro conjI impI)
  show "(call b opn = Some (None, b2)) =
      (\<exists>n b1. sendAll b (documented_command opn) = Some ((n, None), b1) \<and>
              ReadString b1 = ((documented_reply opn, None), b2))"
    unfolding call_sendCommandAndCheck by (rule sendCommandAndCheck_success_iff)
next
  assume s: "sendAll b (documented_command opn) = Some ((n, None), b1)"
  from sendAll_success [OF s] show "sent b1 = sent b @ documented_command opn" by simp
next
  assume s: "sendAll b (documented_command opn) = Some ((n, None), b1)"
    and r: "ReadString b1 = ((resp, None), b3)"
  from sendAll_success [OF s] ReadString_frame [OF r]
  show "sent b3 = sent b @ documented_command opn" by simp
next
  assume s: "sendAll b (documented_command opn) = Some ((n, None), b1)"
    and r: "ReadString b1 = ((resp, None), b3)"
  show "call b opn =
           Some ((if resp = documented_reply opn then None
                  else Some (parseBeanstalkError resp)), b3)"
    unfolding call_sendCommandAndCheck by (rule sendCommandAndCheck_result [OF s r])
qed


theorem exact_literal_operations_witness:
  "Use (client (script [WOut 100 None] (WOut 0 None)) (''USING t1'' @ CRLF)) ''t1'' =
     Some (None, (client (script [] (WOut 0 None)) [])\<lparr>sent := ''use t1'' @ CRLF\<rparr>) \<and>
   Use (client (script [WOut 100 None] (WOut 0 None)) (''USING t2'' @ CRLF)) ''t1'' =
     Some (Some (errUnknown (''USING t2'' @ CRLF)),
           (client (script [] (WOut 0 None)) [])\<lparr>sent := ''use t1'' @ CRLF\<rparr>)"
proof -
  let ?ws = "script [WOut 100 None] (WOut 0 None)"
  let ?ws' = "script [] (WOut 0 None)"
  let ?cmd = "''use t1'' @ CRLF"
  have s1: "sendAll (client ?ws input) (documented_command (UseOp ''t1'')) =
      Some ((length ?cmd, None), (client ?ws' input)\<lparr>sent := ?cmd\<rparr>)" for input
    using client_send [of ?cmd 100 "[]" "WOut 0 None" input] by simp
  have r1: "ReadString ((client ?ws' (''USING t1'' @ CRLF))\<lparr>sent := ?cmd\<rparr>) =
      ((''USING t1'' @ CRLF, None), (client ?ws' [])\<lparr>sent := ?cmd\<rparr>)"
    using client_ReadString
      [where l = "''USING t1'' @ [CHR 0x0D]" and ws = ?ws' and rest = "[]" and d = ?cmd]
    by simp
  have r2: "ReadString ((client ?ws' (''USING t2'' @ CRLF))\<lparr>sent := ?cmd\<rparr>) =
      ((''USING t2'' @ CRLF, None), (client ?ws' [])\<lparr>sent := ?cmd\<rparr>)"
    using client_ReadString
      [where l = "''USING t2'' @ [CHR 0x0D]" and ws = ?ws' and rest = "[]" and d = ?cmd]
    by simp
  note a = exact_literal_operations
      [where b = "client ?ws (''USING t1'' @ CRLF)" and opn = "UseOp ''t1''"
        and ?b2.0 = "client ?ws []" and n = "length ?cmd"
        and ?b1.0 = "(client ?ws' (''USING t1'' @ CRLF))\<lparr>sent := ?cmd\<rparr>"
        and resp = "''USING t1'' @ CRLF" and ?b3.0 = "(client ?ws' [])\<lparr>sent := ?cmd\<rparr>",
        THEN conjunct2, THEN mp, OF s1, THEN conjunct2, THEN mp, OF r1, THEN conjunct2]
  note b = exact_literal_operations
      [where b = "client ?ws (''USING t2'' @ CRLF)" and opn = "UseOp ''t1''"
        and ?b2.0 = "client ?ws []" and n = "length ?cmd"
        and ?b1.0 = "(client ?ws' (''USING t2'' @ CRLF))\<lparr>sent := ?cmd\<rparr>"
        and resp = "''USING t2'' @ CRLF" and ?b3.0 = "(client ?ws' [])\<lparr>sent := ?cmd\<rparr>",
        THEN conjunct2, THEN mp, OF s1, THEN conjunct2, THEN mp, OF r2, THEN conjunct2]
  have c: "parseBeanstalkError (''USING t2'' @ CRLF) = errUnknown (''USING t2'' @ CRLF)"
    by (simp add: parseBeanstalkError_def errorTable_def)
  from a have a': "Use (client ?ws (''USING t1'' @ CRLF)) ''t1'' =
     Some (None, (client ?ws' [])\<lparr>sent := ?cmd\<rparr>)"
    by simp
  from b c have b': "Use (client ?ws (''USING t2'' @ CRLF)) ''t1'' =
     Some (Some (errUnknown (''USING t2'' @ CRLF)), (client ?ws' [])\<lparr>sent := ?cmd\<rparr>)"
    by simp
  from a' b' show ?thesis by (rule conjI)
qed

section \<open>Submitting a job\<close>

text \<open>
  Claim C1. For every payload \<open>P\<close> of length \<open>L\<close>, \<open>Put\<close> sends the bytes
  \<open>put 2147483648 0 120 L\r\n\<close>, then \<open>P\<close>, then \<open>\r\n\<close>: once \<open>sendAll\<close> has sent them,
  the socket has taken exactly these bytes. With the reply \<open>INSERTED <id>\r\n\<close> it then
  returns the id and no error, and with the reply \<open>BURIED <id>\r\n\<close> the id and the error
  \<open>errBuried\<close>; the rest of the stream is left for the next read.
\<close>

theorem Put_frames_and_parses:
  "sendAll b (''put 2147483648 0 120 '' @ itoa (int (length P)) @ CRLF @ P @ CRLF) =
     Some ((n, None), b1) \<longrightarrow>
   sent b1 = sent b @ ''put 2147483648 0 120 '' @ itoa (int (length P)) @ CRLF @ P @ CRLF \<and>
   (rx b = ''INSERTED '' @ utoa jid @ CRLF @ rest \<longrightarrow>
      Put b P = Some ((jid, None), b1\<lparr>rx := rest\<rparr>)) \<and>
   (rx b = ''BURIED '' @ utoa jid @ CRLF @ rest \<longrightarrow>
      Put b P = Some ((jid, Some errBuried), b1\<lparr>rx := rest\<rparr>))"
proof (intro impI conjI)
  let ?cmd = "''put 2147483648 0 120 '' @ itoa (int (length P)) @ CRLF @ P @ CRLF"
  assume s: "sendAll b ?cmd = Some ((n, None), b1)"
  from sendAll_success [OF s] show "sent b1 = sent b @ ?cmd" by simp
next
  let ?cmd = "''put 2147483648 0 120 '' @ itoa (int (length P)) @ CRLF @ P @ CRLF"
  assume "sendAll b ?cmd = Some ((n, None), b1)"
    and "rx b = ''INSERTED '' @ utoa jid @ CRLF @ rest"
  then show "Put b P = Some ((jid, None), b1\<lparr>rx := rest\<rparr>)"
    by (rule Put_INSERTED_reply)
next
  let ?cmd = "''put 2147483648 0 120 '' @ itoa (int (length P)) @ CRLF @ P @ CRLF"
  assume "sendAll b ?cmd = Some ((n, None), b1)"
    and "rx b = ''BURIED '' @ utoa jid @ CRLF @ rest"
  then show "Put b P = Some ((jid, Some errBuried), b1\<lparr>rx := rest\<rparr>)"
    by (rule Put_BURIED_reply)
qed

theorem Put_frames_and_parses_witness:
  "Put (client (script [WOut 100 None] (WOut 0 None)) (''INSERTED 42'' @ CRLF)) ''hello'' =
     Some ((42, None),
           (client (script [] (WOut 0 None)) [])
             \<lparr>sent := ''put 2147483648 0 120 5'' @ CRLF @ ''hello'' @ CRLF\<rparr>) \<and>
   Put (client (script [WOut 100 None] (WOut 0 None)) (''BURIED 7'' @ CRLF)) ''hello'' =
     Some ((7, Some errBuried),
           (client (script [] (WOut 0 None)) [])
             \<lparr>sent := ''put 2147483648 0 120 5'' @ CRLF @ ''hello'' @ CRLF\<rparr>)"
proof -
  let ?ws = "script [WOut 100 None] (WOut 0 None)"
  let ?ws' = "script [] (WOut 0 None)"
  let ?cmd = "''put 2147483648 0 120 5'' @ CRLF @ ''hello'' @ CRLF"
  have i5: "itoa (int (length ''hello'')) = ''5''"
    by (simp add: itoa_def decimal.simps digit_char_def)
  have u42: "utoa 42 = ''42''" and u7: "utoa 7 = ''7''"
    by (simp_all add: utoa_def decimal.simps digit_char_def)
  have s: "sendAll (client ?ws input)
             (''put 2147483648 0 120 '' @ itoa (int (length ''hello'')) @ CRLF @ ''hello'' @ CRLF) =
      Some ((length ?cmd, None), (client ?ws' input)\<lparr>sent := ?cmd\<rparr>)" for input
    unfolding i5 using client_send [of ?cmd 100 "[]" "WOut 0 None" input] by simp
  have r1: "rx (client ?ws (''INSERTED 42'' @ CRLF)) = ''INSERTED '' @ utoa 42 @ CRLF @ []"
    and r2: "rx (client ?ws (''BURIED 7'' @ CRLF)) = ''BURIED '' @ utoa 7 @ CRLF @ []"
    by (simp_all add: u42 u7 client_def)
  note a = Put_frames_and_parses
      [where b = "client ?ws (''INSERTED 42'' @ CRLF)" and P = "''hello''" and n = "length ?cmd"
        and ?b1.0 = "(client ?ws' (''INSERTED 42'' @ CRLF))\<lparr>sent := ?cmd\<rparr>"
        and jid = 42 and rest = "[]",
        THEN mp, OF s, THEN conjunct2, THEN conjunct1, THEN mp, OF r1]
  note b = Put_frames_and_parses
      [where b = "client ?ws (''BURIED 7'' @ CRLF)" and P = "''hello''" and n = "length ?cmd"
        and ?b1.0 = "(client ?ws' (''BURIED 7'' @ CRLF))\<lparr>sent := ?cmd\<rparr>"
        and jid = 7 and rest = "[]",
        THEN mp, OF s, THEN conjunct2, THEN conjunct2, THEN mp, OF r2]
  from a have a': "Put (client ?ws (''INSERTED 42'' @ CRLF)) ''hello'' =
     Some ((42, None), (client ?ws' [])\<lparr>sent := ?cmd\<rparr>)"
    by (simp add: client_def)
  from b have b': "Put (client ?ws (''BURIED 7'' @ CRLF)) ''hello'' =
     Some ((7, Some errBuried), (client ?ws' [])\<lparr>sent := ?cmd\<rparr>)"
    by (simp add: client_def)
  from a' b' show ?thesis by (rule conjI)
qed

section \<open>Reserving a job\<close>

text \<open>
  Claim C9, as stated, at the declared length \<open>2 ^ 48 - 1\<close> and a stream of \<open>2 ^ 48 + 1\<close>
  bytes: the buffer of \<open>len + 2\<close> bytes is above the allocation limit, \<open>make\<close> panics,
  and nothing is read or returned.
\<close>

theorem readData_rejects_long_payload:
  "(0 :: int) \<le> 2 ^ 48 - 1 \<and> (2 ^ 48 - 1) + 2 \<le> int (length long_stream) \<and>
   readData (client (script [] (WOut 0 None)) long_stream) (2 ^ 48 - 1) =
     (Panicked, client (script [] (WOut 0 None)) long_stream)"
proof -
  have "readData (client (script [] (WOut 0 None)) long_stream) (2 ^ 48 - 1) =
     (Panicked, client (script [] (WOut 0 None)) long_stream)"
    by (rule readData_too_long) (simp_all add: maxAlloc_def)
  then show ?thesis by (simp add: length_long_stream)
qed

text \<open>
  Claim C9, amended. For every declared length \<open>len \<ge> 0\<close> whose buffer of \<open>len + 2\<close> bytes
  is within the allocation limit, and every stream that supplies at least \<open>len + 2\<close>
  bytes, \<open>readData\<close> returns the first \<open>len\<close> bytes of the stream and leaves the stream
  after the next 2 bytes. These 2 bytes are dropped by their position alone: the result
  does not depend on what they are, so a terminator other than CR LF is accepted. For
  every longer declared length, \<open>readData\<close> panics before it reads.
\<close>

theorem readData_strips_by_position:
  "(0 \<le> len \<longrightarrow> len + 2 \<le> maxAlloc \<longrightarrow> len + 2 \<le> int (length (rx b)) \<longrightarrow>
      readData b len =
        (Returned (take (nat len) (rx b), None), b\<lparr>rx := drop (nat len + 2) (rx b)\<rparr>)) \<and>
   (0 \<le> len \<longrightarrow> len < 2 ^ 63 \<longrightarrow> maxAlloc < len + 2 \<longrightarrow>
      readData b len = (Panicked, b))"
  using readData_positional readData_too_long by blast

theorem readData_strips_by_position_witness:
  "readData (client (script [] (WOut 0 None)) ''abcXYnext'') 3 =
     (Returned (''abc'', None), client (script [] (WOut 0 None)) ''next'') \<and>
   readData (client (script [] (WOut 0 None)) ''abcXYnext'') (2 ^ 48) =
     (Panicked, client (script [] (WOut 0 None)) ''abcXYnext'')"
  using readData_strips_by_position [of 3 "client (script [] (WOut 0 None)) ''abcXYnext''"]
    readData_strips_by_position [of "2 ^ 48" "client (script [] (WOut 0 None)) ''abcXYnext''"]
  by (simp add: client_def maxAlloc_def)

text \<open>
  Claim C2, as stated, at the response \<open>RESERVED 1 281474976710655\r\n\<close>, whose length is
  \<open>2 ^ 48 - 1\<close>, followed by a stream of \<open>2 ^ 48 + 1\<close> bytes: the payload read panics, and
  \<open>Reserve\<close> returns no job.
\<close>

theorem Reserve_rejects_long_payload:
  "(281474976710655 :: int) + 2 \<le> int (length long_stream) \<and>
   Reserve (client (script [WOut 100 None] (WOut 0 None))
             (''RESERVED 1 281474976710655'' @ CRLF @ long_stream)) =
     Some (Panicked,
           (client (script [] (WOut 0 None)) long_stream)\<lparr>sent := ''reserve'' @ CRLF\<rparr>)"
proof -
  let ?ws = "script [WOut 100 None] (WOut 0 None)"
  let ?in = "''RESERVED 1 281474976710655'' @ CRLF @ long_stream"
  have i: "itoa 281474976710655 = ''281474976710655''"
    by (simp add: itoa_def decimal.simps digit_char_def)
  have rx: "rx (client ?ws ?in) =
      ''RESERVED '' @ utoa 1 @ '' '' @ itoa 281474976710655 @ CRLF @ long_stream"
    by (simp add: small_decimals i client_def)
  have len: "(0 :: int) \<le> 281474976710655" "(281474976710655 :: int) < 2 ^ 63"
    "maxAlloc < 281474976710655 + 2"
    by (simp_all add: maxAlloc_def)
  from Reserve_too_long [OF reserve_send len rx]
  have "Reserve (client ?ws ?in) =
     Some (Panicked,
           (client (script [] (WOut 0 None)) long_stream)\<lparr>sent := ''reserve'' @ CRLF\<rparr>)"
    by (simp add: client_def)
  then show ?thesis by (simp add: length_long_stream)
qed

text \<open>
  Claim C2, amended. After the command \<open>reserve\r\n\<close> is sent, for every response
  \<open>RESERVED <id> <len>\r\n\<close> with \<open>len \<ge> 0\<close> and \<open>len + 2\<close> within the allocation limit,
  followed by a stream of at least \<open>len + 2\<close> bytes, \<open>Reserve\<close> returns without error a
  job whose ID is the id and whose payload is the first \<open>len\<close> bytes of the stream, \<open>len\<close>
  bytes long; exactly \<open>len + 2\<close> bytes are read after the header, and the 2 last are part
  of neither the payload nor the rest of the stream. For a longer declared length, the
  payload read panics and nothing is read after the header.
\<close>

theorem Reserve_returns_payload:
  "sendAll b (''reserve'' @ CRLF) = Some ((n, None), b1) \<longrightarrow>
   0 \<le> len \<longrightarrow>
   rx b = ''RESERVED '' @ utoa jid @ '' '' @ itoa len @ CRLF @ stream \<longrightarrow>
   (len + 2 \<le> maxAlloc \<longrightarrow> len + 2 \<le> int (length stream) \<longrightarrow>
      Reserve b =
        Some (Returned (Some \<lparr>ID = jid, Data = take (nat len) stream\<rparr>, None),
              b1\<lparr>rx := drop (nat len + 2) stream\<rparr>) \<and>
      length (take (nat len) stream) = nat len) \<and>
   (maxAlloc < len + 2 \<longrightarrow> len < 2 ^ 63 \<longrightarrow> Reserve b = Some (Panicked, b1\<lparr>rx := stream\<rparr>))"
proof (intro impI conjI)
  assume s: "sendAll b (''reserve'' @ CRLF) = Some ((n, None), b1)"
    and len: "0 \<le> len" "len + 2 \<le> maxAlloc"
    and rx: "rx b = ''RESERVED '' @ utoa jid @ '' '' @ itoa len @ CRLF @ stream"
    and enough: "len + 2 \<le> int (length stream)"
  from len have range: "- (2 ^ 63) \<le> len" "len < 2 ^ 63" by (simp_all add: maxAlloc_def)
  from enough have "len + 2 \<le> int (length (rx (b1\<lparr>rx := stream\<rparr>)))" by simp
  from readData_positional [OF len this]
  have rd: "readData (b1\<lparr>rx := stream\<rparr>) len =
      (Returned (take (nat len) stream, None), b1\<lparr>rx := drop (nat len + 2) stream\<rparr>)"
    by simp
  from Reserve_header [OF s rx range] rd
  show "Reserve b =
     Some (Returned (Some \<lparr>ID = jid, Data = take (nat len) stream\<rparr>, None),
           b1\<lparr>rx := drop (nat len + 2) stream\<rparr>)" by simp
  from len enough show "length (take (nat len) stream) = nat len" by simp
next
  assume "sendAll b (''reserve'' @ CRLF) = Some ((n, None), b1)" and "0 \<le> len"
    and "rx b = ''RESERVED '' @ utoa jid @ '' '' @ itoa len @ CRLF @ stream"
    and "maxAlloc < len + 2" and "len < 2 ^ 63"
  then show "Reserve b = Some (Panicked, b1\<lparr>rx := stream\<rparr>)"
    by (intro Reserve_too_long)
qed

theorem Reserve_returns_payload_witness:
  "Reserve (client (script [WOut 100 None] (WOut 0 None))
             (''RESERVED 5 3'' @ CRLF @ ''abc'' @ CRLF)) =
     Some (Returned (Some \<lparr>ID = 5, Data = ''abc''\<rparr>, None),
           (client (script [] (WOut 0 None)) [])\<lparr>sent := ''reserve'' @ CRLF\<rparr>)"
proof -
  let ?ws = "script [WOut 100 None] (WOut 0 None)"
  let ?in = "''RESERVED 5 3'' @ CRLF @ ''abc'' @ CRLF"
  have rx: "rx (client ?ws ?in) =
      ''RESERVED '' @ utoa 5 @ '' '' @ itoa 3 @ CRLF @ (''abc'' @ CRLF)"
    by (simp add: small_decimals client_def)
  have len: "(0::int) \<le> 3" "(3::int) + 2 \<le> maxAlloc"
    "(3::int) + 2 \<le> int (length (''abc'' @ CRLF))"
    by (simp_all add: maxAlloc_def)
  note a = Reserve_returns_payload
      [where b = "client ?ws ?in" and n = "length (''reserve'' @ CRLF)"
        and ?b1.0 = "(client (script [] (WOut 0 None)) ?in)\<lparr>sent := ''reserve'' @ CRLF\<rparr>"
        and len = 3 and jid = 5 and stream = "''abc'' @ CRLF",
        THEN mp, OF reserve_send, THEN mp, OF len(1), THEN mp, OF rx, THEN conjunct1,
        THEN mp, OF len(2), THEN mp, OF len(3), THEN conjunct1]
  then show ?thesis by (simp add: client_def)
qed

text \<open>
  Claim C10, as stated, at the header \<open>RESERVED 1 -1\r\n\<close> with the stream at its end
  after it: \<open>readData\<close> makes a buffer of one byte, \<open>io.ReadFull\<close> finds nothing to read
  and returns \<open>io.EOF\<close>, and \<open>Reserve\<close> returns that error to its caller; nothing panics.
\<close>

theorem Reserve_minus_one_at_end_of_stream:
  "Reserve (client (script [WOut 100 None] (WOut 0 None)) (''RESERVED 1 -1'' @ CRLF)) =
     Some (Returned (Some \<lparr>ID = 1, Data = []\<rparr>, Some errEOF),
           (client (script [] (WOut 0 None)) [])\<lparr>sent := ''reserve'' @ CRLF\<rparr>)"
proof -
  let ?ws = "script [WOut 100 None] (WOut 0 None)"
  let ?ws' = "script [] (WOut 0 None)"
  have rx1: "rx (client ?ws (''RESERVED 1 -1'' @ CRLF)) =
      ''RESERVED '' @ utoa 1 @ '' '' @ itoa (- 1) @ CRLF @ []"
    by (simp add: small_decimals client_def)
  have l1: "- (2 ^ 63) \<le> (- 1 :: int)" "(- 1 :: int) < 0" by simp_all
  note a = Reserve_negative
      [where b = "client ?ws (''RESERVED 1 -1'' @ CRLF)"
        and n = "length (''reserve'' @ CRLF)"
        and ?b1.0 = "(client ?ws' (''RESERVED 1 -1'' @ CRLF))\<lparr>sent := ''reserve'' @ CRLF\<rparr>"
        and len = "- 1" and jid = 1 and rest = "[]",
        THEN mp, OF reserve_send, THEN mp, OF l1(1), THEN mp, OF l1(2), THEN mp, OF rx1]
  then show ?thesis by (simp add: client_def)
qed

text \<open>
  Claim C10, amended. After the command is sent, for every response header that declares
  a negative length \<open>len\<close> (one that the scanner reads into an \<open>int\<close>), the payload read
  panics and \<open>Reserve\<close> returns nothing to its caller, in every case but one: with the
  length \<open>-1\<close> and no byte after the header, the read error is returned. With the length
  \<open>-1\<close> and a byte after the header, that byte is read before \<open>data[:n-2]\<close> panics.
\<close>

theorem Reserve_negative_length:
  "sendAll b (''reserve'' @ CRLF) = Some ((n, None), b1) \<longrightarrow>
   - (2 ^ 63) \<le> len \<longrightarrow> len < 0 \<longrightarrow>
   rx b = ''RESERVED '' @ utoa jid @ '' '' @ itoa len @ CRLF @ rest \<longrightarrow>
   Reserve b =
     (if len = - 1 \<and> rest = [] then
        Some (Returned (Some \<lparr>ID = jid, Data = []\<rparr>, Some errEOF), b1\<lparr>rx := []\<rparr>)
      else if len = - 1 then Some (Panicked, b1\<lparr>rx := tl rest\<rparr>)
      else Some (Panicked, b1\<lparr>rx := rest\<rparr>))"
  by (rule Reserve_negative)

theorem Reserve_negative_length_witness:
  "Reserve (client (script [WOut 100 None] (WOut 0 None)) (''RESERVED 1 -1'' @ CRLF @ ''x'')) =
     Some (Panicked, (client (script [] (WOut 0 None)) [])\<lparr>sent := ''reserve'' @ CRLF\<rparr>) \<and>
   Reserve (client (script [WOut 100 None] (WOut 0 None)) (''RESERVED 1 -5'' @ CRLF)) =
     Some (Panicked, (client (script [] (WOut 0 None)) [])\<lparr>sent := ''reserve'' @ CRLF\<rparr>)"
proof -
  let ?ws = "script [WOut 100 None] (WOut 0 None)"
  let ?ws' = "script [] (WOut 0 None)"
  have rx1: "rx (client ?ws (''RESERVED 1 -1'' @ CRLF @ ''x'')) =
      ''RESERVED '' @ utoa 1 @ '' '' @ itoa (- 1) @ CRLF @ ''x''"
    and rx2: "rx (client ?ws (''RESERVED 1 -5'' @ CRLF)) =
      ''RESERVED '' @ utoa 1 @ '' '' @ itoa (- 5) @ CRLF @ []"
    by (simp_all add: small_decimals client_def)
  have l1: "- (2 ^ 63) \<le> (- 1 :: int)" "(- 1 :: int) < 0"
    and l2: "- (2 ^ 63) \<le> (- 5 :: int)" "(- 5 :: int) < 0"
    by simp_all
  note a = Reserve_negative_length
      [where b = "client ?ws (''RESERVED 1 -1'' @ CRLF @ ''x'')"
        and n = "length (''reserve'' @ CRLF)"
        and ?b1.0 = "(client ?ws' (''RESERVED 1 -1'' @ CRLF @ ''x''))\<lparr>sent := ''reserve'' @ CRLF\<rparr>"
        and len = "- 1" and jid = 1 and rest = "''x''",
        THEN mp, OF reserve_send, THEN mp, OF l1(1), THEN mp, OF l1(2), THEN mp, OF rx1]
  note b = Reserve_negative_length
      [where b = "client ?ws (''RESERVED 1 -5'' @ CRLF)"
        and n = "length (''reserve'' @ CRLF)"
        and ?b1.0 = "(client ?ws' (''RESERVED 1 -5'' @ CRLF))\<lparr>sent := ''reserve'' @ CRLF\<rparr>"
        and len = "- 5" and jid = 1 and rest = "[]",
        THEN mp, OF reserve_send, THEN mp, OF l2(1), THEN mp, OF l2(2), THEN mp, OF rx2]
  from a have a': "Reserve (client ?ws (''RESERVED 1 -1'' @ CRLF @ ''x'')) =
     Some (Panicked, (client ?ws' [])\<lparr>sent := ''reserve'' @ CRLF\<rparr>)"
    by (simp add: client_def)
  from b have b': "Reserve (client ?ws (''RESERVED 1 -5'' @ CRLF)) =
     Some (Panicked, (client ?ws' [])\<lparr>sent := ''reserve'' @ CRLF\<rparr>)"
    by (simp add: client_def)
  from a' b' show ?thesis by (rule conjI)
qed

section \<open>Submission and reservation, end to end\<close>

text \<open>
  Claim C7. Let \<open>Put\<close> submit the payload \<open>P\<close> with success, on a connection that had sent
  nothing before, and let the bytes it has put on the wire be the stream of a reader.
  Reading the first line gives the command line with the declared length \<open>|P|\<close>, and the
  payload reader of \<open>Reserve\<close>, \<open>readData\<close>, called with that length, returns exactly \<open>P\<close>
  and consumes the terminator that \<open>Put\<close> wrote: the payload comes back unchanged. The
  payload is one that the client can frame: \<open>Put\<close> builds its command in a buffer of
  \<open>|P| + 64\<close> bytes, which the runtime allocates only within the allocation limit, so
  \<open>|P| + 2\<close> is within it.
\<close>

theorem Put_readData_roundtrip:
  "Put b0 P = Some ((jid, None), b0') \<longrightarrow> sent b0 = [] \<longrightarrow>
   int (length P) + 2 \<le> maxAlloc \<longrightarrow>
   rx b = sent b0' @ rest \<longrightarrow>
   ReadString b =
     ((''put 2147483648 0 120 '' @ itoa (int (length P)) @ CRLF, None),
      b\<lparr>rx := P @ CRLF @ rest\<rparr>) \<and>
   readData (b\<lparr>rx := P @ CRLF @ rest\<rparr>) (int (length P)) =
     (Returned (P, None), b\<lparr>rx := rest\<rparr>)"
proof (intro impI)
  assume put: "Put b0 P = Some ((jid, None), b0')" and e: "sent b0 = []"
    and len: "int (length P) + 2 \<le> maxAlloc" and rx: "rx b = sent b0' @ rest"
  let ?hdr = "''put 2147483648 0 120 '' @ itoa (int (length P)) @ [CHR 0x0D]"
  from Put_success_sent [OF put] e rx
  have rx': "rx b = ?hdr @ CHR 0x0A # (P @ CRLF @ rest)" by simp
  have "CHR 0x0A \<notin> set ?hdr" by (simp add: itoa_no_LF)
  from ReadString_line [OF this rx']
  have 1: "ReadString b =
     ((''put 2147483648 0 120 '' @ itoa (int (length P)) @ CRLF, None),
      b\<lparr>rx := P @ CRLF @ rest\<rparr>)" by simp
  have 2: "readData (b\<lparr>rx := P @ CRLF @ rest\<rparr>) (int (length P)) =
     (Returned (P, None), b\<lparr>rx := rest\<rparr>)"
    using readData_payload [OF len, of "b\<lparr>rx := P @ CRLF @ rest\<rparr>" "CHR 0x0D" "CHR 0x0A" rest]
    by simp
  from 1 2 show "ReadString b =
     ((''put 2147483648 0 120 '' @ itoa (int (length P)) @ CRLF, None),
      b\<lparr>rx := P @ CRLF @ rest\<rparr>) \<and>
   readData (b\<lparr>rx := P @ CRLF @ rest\<rparr>) (int (length P)) =
     (Returned (P, None), b\<lparr>rx := rest\<rparr>)" by (rule conjI)
qed

theorem Put_readData_roundtrip_witness:
  "Put (client (script [WOut 100 None] (WOut 0 None)) (''INSERTED 42'' @ CRLF)) ''hello'' =
     Some ((42, None),
           (client (script [] (WOut 0 None)) [])
             \<lparr>sent := ''put 2147483648 0 120 5'' @ CRLF @ ''hello'' @ CRLF\<rparr>) \<and>
   ReadString (client (script [] (WOut 0 None))
                 (''put 2147483648 0 120 5'' @ CRLF @ ''hello'' @ CRLF @ ''next'')) =
     ((''put 2147483648 0 120 5'' @ CRLF, None),
      client (script [] (WOut 0 None)) (''hello'' @ CRLF @ ''next'')) \<and>
   readData (client (script [] (WOut 0 None)) (''hello'' @ CRLF @ ''next'')) 5 =
     (Returned (''hello'', None), client (script [] (WOut 0 None)) ''next'')"
proof -
  let ?ws = "script [WOut 100 None] (WOut 0 None)"
  let ?ws' = "script [] (WOut 0 None)"
  let ?cmd = "''put 2147483648 0 120 5'' @ CRLF @ ''hello'' @ CRLF"
  have e: "sent (client ?ws (''INSERTED 42'' @ CRLF)) = []" by (simp add: client_def)
  have l: "int (length ''hello'') + 2 \<le> maxAlloc" by (simp add: maxAlloc_def)
  have rx: "rx (client ?ws' (?cmd @ ''next'')) =
      sent ((client ?ws' [])\<lparr>sent := ?cmd\<rparr>) @ ''next''"
    by (simp add: client_def)
  note a = Put_readData_roundtrip
      [where ?b0.0 = "client ?ws (''INSERTED 42'' @ CRLF)" and P = "''hello''" and jid = 42
        and b0' = "(client ?ws' [])\<lparr>sent := ?cmd\<rparr>"
        and b = "client ?ws' (?cmd @ ''next'')" and rest = "''next''",
        THEN mp, OF Put_hello, THEN mp, OF e, THEN mp, OF l, THEN mp, OF rx]
  from a have "ReadString (client ?ws' (?cmd @ ''next'')) =
     ((''put 2147483648 0 120 5'' @ CRLF, None), client ?ws' (''hello'' @ CRLF @ ''next'')) \<and>
   readData (client ?ws' (''hello'' @ CRLF @ ''next'')) 5 =
     (Returned (''hello'', None), client ?ws' ''next'')"
    by (simp add: client_def small_decimals)
  with Put_hello show ?thesis by simp
qed

section \<open>Responses that are not the expected one\<close>

text \<open>
  Claim C5, as stated, at the response \<open>RESERVED x\r\n\<close> to \<open>Reserve\<close>: the line does not
  match the pattern \<open>RESERVED <id> <len>\r\n\<close>, and \<open>Reserve\<close> returns the error of the
  scan; the classifier, which would give the unknown error carrying the line, is not
  called.
\<close>

theorem Reserve_malformed_header:
  "Reserve (client (script [WOut 100 None] (WOut 0 None)) (''RESERVED x'' @ CRLF)) =
     Some (Returned (None, Some errScan),
           (client (script [] (WOut 0 None)) [])\<lparr>sent := ''reserve'' @ CRLF\<rparr>) \<and>
   parseBeanstalkError (''RESERVED x'' @ CRLF) = errUnknown (''RESERVED x'' @ CRLF)"
proof -
  have "sendCommand (client (script [WOut 100 None] (WOut 0 None))
                      ((''RESERVED x'' @ [CHR 0x0D]) @ CHR 0x0A # []))
          (''reserve'' @ CRLF) =
        Some (((''RESERVED x'' @ [CHR 0x0D]) @ [CHR 0x0A], None),
              (client (script [] (WOut 0 None)) [])\<lparr>sent := ''reserve'' @ CRLF\<rparr>)"
    by (rule client_sendCommand) simp_all
  then have s: "sendCommand (client (script [WOut 100 None] (WOut 0 None)) (''RESERVED x'' @ CRLF))
          (''reserve'' @ CRLF) =
        Some ((''RESERVED x'' @ CRLF, None),
              (client (script [] (WOut 0 None)) [])\<lparr>sent := ''reserve'' @ CRLF\<rparr>)"
    by simp
  have sc: "snd (snd (Sscanf_RESERVED (''RESERVED x'' @ CRLF))) = Some errScan"
    by (simp add: Sscanf_RESERVED_def fmt_literal_def fmt_space_def skip_spaces_SP skip_spaces_id
        scanUint_def SkipSpace_def ParseUint_def is_digit_def)
  have "prefix ''RESERVED'' (''RESERVED x'' @ CRLF)" by simp
  from Reserve_result_scan_error [OF s this sc]
  show ?thesis by (simp add: parseBeanstalkError_def errorTable_def)
qed

text \<open>
  Claim C5, amended. Once the command is sent and a response line \<open>resp\<close> is read, every
  operation returns the error of \<open>parseBeanstalkError resp\<close> when \<open>resp\<close> is a line that
  it classifies: one that does not start with \<open>IN\<close> or \<open>BU\<close> for \<open>Put\<close>, with
  \<open>RESERVED\<close> for \<open>Reserve\<close>, with \<open>KICKED\<close> for \<open>Kick\<close>, one that the scan of
  \<open>Watch\<close> rejects, one that differs from the literal of \<open>Use\<close>, \<open>Delete\<close>, \<open>Bury\<close>,
  \<open>Release\<close> or \<open>KickJob\<close>. So each line of the error table gives its error in reply to
  each operation, the two replies of \<open>set_aside\<close> apart, of which nothing is said here. A
  line that starts with \<open>RESERVED\<close> or \<open>KICKED\<close> and does not scan gives the error of the
  scan.
\<close>

theorem classifier_invoked:
  "sendCommand b (documented_request opn) = Some ((resp, None), b2) \<longrightarrow>
   (classified opn resp \<longrightarrow>
      op_error b opn = Some (Returned (Some (parseBeanstalkError resp), b2))) \<and>
   (resp \<in> set error_lines \<longrightarrow> \<not> set_aside opn resp \<longrightarrow>
      op_error b opn = Some (Returned (Some (parseBeanstalkError resp), b2))) \<and>
   (opn = ReserveOp \<longrightarrow> prefix ''RESERVED'' resp \<longrightarrow>
    snd (snd (Sscanf_RESERVED resp)) = Some e \<longrightarrow>
      op_error b opn = Some (Returned (Some e, b2))) \<and>
   (opn = KickOp bound \<longrightarrow> prefix ''KICKED'' resp \<longrightarrow>
      op_error b opn = Some (Returned (snd (Sscanf_uint resp ''KICKED''), b2)))"
proof (intro impI conjI)
  assume "sendCommand b (documented_request opn) = Some ((resp, None), b2)" and "classified opn resp"
  then show "op_error b opn = Some (Returned (Some (parseBeanstalkError resp), b2))"
    by (rule classified_error)
next
  assume "sendCommand b (documented_request opn) = Some ((resp, None), b2)"
    and "resp \<in> set error_lines" and "\<not> set_aside opn resp"
  then show "op_error b opn = Some (Returned (Some (parseBeanstalkError resp), b2))"
    by (rule error_line_error)
next
  assume s: "sendCommand b (documented_request opn) = Some ((resp, None), b2)"
    and o: "opn = ReserveOp" and p: "prefix ''RESERVED'' resp"
    and e: "snd (snd (Sscanf_RESERVED resp)) = Some e"
  from s o have "sendCommand b (''reserve'' @ CRLF) = Some ((resp, None), b2)" by simp
  from Reserve_result_scan_error [OF this p e] o
  show "op_error b opn = Some (Returned (Some e, b2))" by simp
next
  assume s: "sendCommand b (documented_request opn) = Some ((resp, None), b2)"
    and o: "opn = KickOp bound" and p: "prefix ''KICKED'' resp"
  from s o have "sendCommand b (''kick '' @ utoa bound @ CRLF) = Some ((resp, None), b2)"
    by simp
  from Kick_result [OF this] o p
  show "op_error b opn = Some (Returned (snd (Sscanf_uint resp ''KICKED''), b2))" by simp
qed

theorem classifier_invoked_witness:
  "op_error (client (script [WOut 100 None] (WOut 0 None)) (''DEADLINE_SOON'' @ CRLF)) ReserveOp =
     Some (Returned (Some errDeadlineSoon,
                     (client (script [] (WOut 0 None)) [])\<lparr>sent := ''reserve'' @ CRLF\<rparr>)) \<and>
   classified ReserveOp (''DEADLINE_SOON'' @ CRLF) \<and>
   ''DEADLINE_SOON'' @ CRLF \<in> set error_lines"
proof -
  let ?b = "client (script [WOut 100 None] (WOut 0 None)) (''DEADLINE_SOON'' @ CRLF)"
  let ?b2 = "(client (script [] (WOut 0 None)) [])\<lparr>sent := ''reserve'' @ CRLF\<rparr>"
  have "sendCommand (client (script [WOut 100 None] (WOut 0 None))
                      ((''DEADLINE_SOON'' @ [CHR 0x0D]) @ CHR 0x0A # []))
          (''reserve'' @ CRLF) =
        Some (((''DEADLINE_SOON'' @ [CHR 0x0D]) @ [CHR 0x0A], None), ?b2)"
    by (rule client_sendCommand) simp_all
  then have s: "sendCommand ?b (documented_request ReserveOp) =
      Some ((''DEADLINE_SOON'' @ CRLF, None), ?b2)"
    by simp
  have c: "classified ReserveOp (''DEADLINE_SOON'' @ CRLF)" by simp
  have t: "''DEADLINE_SOON'' @ CRLF \<in> set error_lines" by (simp add: error_lines_def)
  have p: "parseBeanstalkError (''DEADLINE_SOON'' @ CRLF) = errDeadlineSoon"
    by (simp add: parseBeanstalkError_def errorTable_def)
  note a = classifier_invoked
      [where b = ?b and opn = ReserveOp and resp = "''DEADLINE_SOON'' @ CRLF" and ?b2.0 = ?b2
        and e = errScan and bound = 0,
        THEN mp, OF s, THEN conjunct1, THEN mp, OF c]
  from a have r: "op_error ?b ReserveOp = Some (Returned (Some errDeadlineSoon, ?b2))"
    unfolding p .
  from r c t show ?thesis by (intro conjI)
qed

end
